theory Spec2Isabelle
  imports Complex_Main "HOL-Library.AList" "HOL-Library.Log_Nat"
begin

section \<open>Python values\<close>

text \<open>
  A Python \<open>str\<close> is a sequence of Unicode code points: \<open>len\<close> counts code points and
  \<open>in\<close> is substring search on them.  ASCII literals are written through \<open>asc\<close>, CJK
  literals of the source as their code points.
\<close>

type_synonym pystr = "nat list"

definition asc :: "string \<Rightarrow> pystr" where
  "asc s = map of_char s"

text \<open>
  \<open>str.lower()\<close>: exact on ASCII, on the two code points outside ASCII whose lower
  case holds an ASCII letter (U+0130 and U+212A) and on caseless scripts (all CJK
  literals of the source).  The other cased letters are left as they are; their lower
  case holds neither an ASCII nor a CJK character, so the tests of a lowered string
  against the literals of the source come out as in Python.
\<close>

definition lower_cps :: "nat \<Rightarrow> pystr" where
  "lower_cps c =
     (if 65 \<le> c \<and> c \<le> 90 then [c + 32]
      else if c = 0x130 then [0x69, 0x307]
      else if c = 0x212A then [0x6B]
      else [c])"

definition py_lower :: "pystr \<Rightarrow> pystr" where
  "py_lower s = concat (map lower_cps s)"

text \<open>\<open>str.strip()\<close> removes the code points for which \<open>str.isspace\<close> holds.\<close>

definition is_space :: "nat \<Rightarrow> bool" where
  "is_space c \<longleftrightarrow>
     (9 \<le> c \<and> c \<le> 13) \<or> (28 \<le> c \<and> c \<le> 32) \<or> c = 0x85 \<or> c = 0xA0 \<or> c = 0x1680 \<or>
     (0x2000 \<le> c \<and> c \<le> 0x200A) \<or> c = 0x2028 \<or> c = 0x2029 \<or> c = 0x202F \<or>
     c = 0x205F \<or> c = 0x3000"

definition py_strip :: "pystr \<Rightarrow> pystr" where
  "py_strip s = rev (dropWhile is_space (rev (dropWhile is_space s)))"

fun startswith :: "pystr \<Rightarrow> pystr \<Rightarrow> bool" where
  "startswith s [] = True"
| "startswith [] (p # ps) = False"
| "startswith (c # cs) (p # ps) = (c = p \<and> startswith cs ps)"

text \<open>\<open>p in s\<close> for two strings.\<close>

fun contains :: "pystr \<Rightarrow> pystr \<Rightarrow> bool" where
  "contains p [] = (p = [])"
| "contains p (c # cs) = (startswith (c # cs) p \<or> contains p cs)"

text \<open>\<open>str(n)\<close> for an integer: decimal digits, with a minus sign.\<close>

fun digits_fuel :: "nat \<Rightarrow> nat \<Rightarrow> pystr" where
  "digits_fuel 0 n = []"
| "digits_fuel (Suc k) n =
     (if n < 10 then [48 + n] else digits_fuel k (n div 10) @ [48 + n mod 10])"

definition str_of_nat :: "nat \<Rightarrow> pystr" where
  "str_of_nat n = digits_fuel (Suc n) n"

definition str_of_int :: "int \<Rightarrow> pystr" where
  "str_of_int i = (if i < 0 then 45 # str_of_nat (nat (- i)) else str_of_nat (nat i))"

text \<open>
  A Python \<open>float\<close> is an IEEE 754 binary64 number, here the rational it stands for.
  Every float operation of the source (the conversion of an \<open>int\<close>, \<open>+\<close>, \<open>*\<close>,
  \<open>/\<close>, a literal) returns the exact result rounded to the nearest float, ties to the
  even significand.  The definitions below take that rounding as the parameter \<open>fl\<close>;
  \<open>binary64\<close> is the rounding itself, for magnitudes below \<open>2 ^ 1024\<close>.
\<close>

definition round_half_even :: "rat \<Rightarrow> int" where
  "round_half_even q =
     (let f = \<lfloor>q\<rfloor>; d = q - of_int f
      in if d < 1 / 2 then f else if d > 1 / 2 then f + 1 else if even f then f else f + 1)"

text \<open>The exponent \<open>e\<close> with \<open>2 ^ e \<le> a < 2 ^ (e + 1)\<close>, for \<open>a > 0\<close>.\<close>

definition binade :: "rat \<Rightarrow> int" where
  "binade a =
     (let d = bitlen (fst (quotient_of a)) - bitlen (snd (quotient_of a))
      in if 2 powi d \<le> a then d else d - 1)"

text \<open>The spacing of the floats around \<open>a\<close>: 53 significant bits, and the spacing
  of the subnormal numbers below \<open>2 ^ (- 1022)\<close>.\<close>

definition ulp :: "rat \<Rightarrow> rat" where
  "ulp a = 2 powi (max (binade a) (- 1022) - 52)"

definition binary64 :: "rat \<Rightarrow> rat" where
  "binary64 x =
     (if x = 0 then 0
      else sgn x * of_int (round_half_even (\<bar>x\<bar> / ulp \<bar>x\<bar>)) * ulp \<bar>x\<bar>)"

text \<open>
  The values \<open>json.loads\<close> produces.  A dict is an association list in insertion order,
  as Python keeps it; a number is the rational it stands for (NaN and infinities are
  left out).
\<close>

datatype json =
    JNull
  | JBool bool
  | JNum rat
  | JStr pystr
  | JList "json list"
  | JDict "(pystr \<times> json) list"

type_synonym pydict = "(pystr \<times> json) list"

text \<open>Truth value of a Python object in a condition.\<close>

fun truthy :: "json \<Rightarrow> bool" where
  "truthy JNull = False"
| "truthy (JBool b) = b"
| "truthy (JNum n) = (n \<noteq> 0)"
| "truthy (JStr s) = (s \<noteq> [])"
| "truthy (JList xs) = (xs \<noteq> [])"
| "truthy (JDict d) = (d \<noteq> [])"

text \<open>Exceptions raised by the modelled code.\<close>

datatype error = AttributeError | TypeError | KeyError | ValueError | IndexError

section \<open>ToolManager (structured\_output.py)\<close>

text \<open>
  \<open>tools\<close> is the dict from tool name to description that \<open>_load_tools\<close> fills,
  \<open>tool_parameters\<close> the dict from tool name to its parameter string.
\<close>

record tool_manager =
  tools :: "(pystr \<times> pystr) list"
  tool_parameters :: "(pystr \<times> pystr) list"

definition is_valid_tool :: "tool_manager \<Rightarrow> pystr \<Rightarrow> bool" where
  "is_valid_tool tm tool_name =
     (if tool_name \<in> set [asc ''finish_diagnosis'', asc ''finish''] then True
      else tool_name \<in> fst ` set (tools tm))"

definition get_tool_parameters :: "tool_manager \<Rightarrow> pystr \<Rightarrow> pystr option" where
  "get_tool_parameters tm tool_name = map_of (tool_parameters tm) tool_name"

section \<open>StateManager (state\_manager.py)\<close>

record execution =
  ex_step :: int
  ex_tool_name :: pystr
  ex_tool_request :: json
  ex_tool_response :: json
  ex_reasoning :: pystr

record finding_item =
  fd_finding :: pystr
  fd_severity :: pystr
  fd_step :: int

record chain_item =
  ch_step :: int
  ch_action :: pystr
  ch_result :: pystr
  ch_conclusion :: pystr
  ch_next_focus :: "json option"

record state_manager =
  step_count :: int
  executed_tools :: "execution list"
  observations :: pydict
  findings :: "finding_item list"
  tool_usage_count :: "(pystr \<times> nat) list"
  diagnostic_chain :: "chain_item list"
  current_focus :: json
  excluded_causes :: "pystr list"

definition init_state :: state_manager where
  "init_state = \<lparr> step_count = 0, executed_tools = [], observations = [], findings = [],
     tool_usage_count = [], diagnostic_chain = [], current_focus = JNull,
     excluded_causes = [] \<rparr>"

text \<open>
  \<open>_extract_observations\<close>: \<open>tool_response.items()\<close> exists only on a dict; on any
  other value Python raises \<open>AttributeError\<close>.
\<close>

definition extract_observations :: "pystr \<Rightarrow> json \<Rightarrow> pydict \<Rightarrow> error + pydict" where
  "extract_observations tool_name tool_response obs =
     (case tool_response of
        JDict d \<Rightarrow>
          Inr (fold (\<lambda>(key, value) acc.
                 if \<not> startswith key (asc ''_'')
                 then AList.update (tool_name @ asc ''_'' @ key) value acc
                 else acc) d obs)
      | _ \<Rightarrow> Inl AttributeError)"

text \<open>\<open>get_tool_usage_count\<close>: \<open>self.tool_usage_count.get(tool_name, 0)\<close>.\<close>

definition get_tool_usage_count :: "state_manager \<Rightarrow> pystr \<Rightarrow> nat" where
  "get_tool_usage_count s tool_name =
     (case map_of (tool_usage_count s) tool_name of None \<Rightarrow> 0 | Some c \<Rightarrow> c)"

text \<open>
  \<open>add_execution\<close>.  The state object is local to one run and nothing catches the
  exception, so a raising call leaves no state behind: the result is \<open>Inl\<close>.
\<close>

definition add_execution ::
  "pystr \<Rightarrow> json \<Rightarrow> json \<Rightarrow> pystr \<Rightarrow> state_manager \<Rightarrow> error + state_manager" where
  "add_execution tool_name tool_request tool_response reasoning s =
     (let n = step_count s + 1;
          record = \<lparr> ex_step = n, ex_tool_name = tool_name, ex_tool_request = tool_request,
                     ex_tool_response = tool_response, ex_reasoning = reasoning \<rparr>;
          s' = s \<lparr> step_count := n,
                   executed_tools := executed_tools s @ [record],
                   tool_usage_count :=
                     AList.update tool_name (get_tool_usage_count s tool_name + 1)
                       (tool_usage_count s) \<rparr>
      in case extract_observations tool_name tool_response (observations s') of
           Inl e \<Rightarrow> Inl e
         | Inr obs \<Rightarrow> Inr (s' \<lparr> observations := obs \<rparr>))"

definition add_finding :: "pystr \<Rightarrow> pystr \<Rightarrow> state_manager \<Rightarrow> state_manager" where
  "add_finding finding severity s =
     s \<lparr> findings := findings s @
           [\<lparr> fd_finding = finding, fd_severity = severity, fd_step = step_count s \<rparr>] \<rparr>"

definition update_diagnostic_chain ::
  "pystr \<Rightarrow> pystr \<Rightarrow> pystr \<Rightarrow> json \<Rightarrow> state_manager \<Rightarrow> state_manager" where
  "update_diagnostic_chain action result conclusion next_focus s =
     (let chain_item = \<lparr> ch_step = step_count s, ch_action = action, ch_result = result,
                         ch_conclusion = conclusion, ch_next_focus = None \<rparr>
      in if truthy next_focus
         then s \<lparr> current_focus := next_focus,
                  diagnostic_chain :=
                    diagnostic_chain s @ [chain_item \<lparr> ch_next_focus := Some next_focus \<rparr>] \<rparr>
         else s \<lparr> diagnostic_chain := diagnostic_chain s @ [chain_item] \<rparr>)"

definition has_critical_finding :: "state_manager \<Rightarrow> bool" where
  "has_critical_finding s = list_ex (\<lambda>f. fd_severity f = asc ''high'') (findings s)"

definition no_new_findings_recently :: "state_manager \<Rightarrow> int \<Rightarrow> bool" where
  "no_new_findings_recently s window =
     (if step_count s < window then False
      else let recent_findings =
                 filter (\<lambda>f. step_count s - window + 1 \<le> fd_step f \<and> fd_step f < step_count s + 1)
                   (findings s)
           in length recent_findings = 0)"

definition sufficient_coverage :: "state_manager \<Rightarrow> bool" where
  "sufficient_coverage s = (length (tool_usage_count s) \<ge> 8)"

text \<open>The reason strings \<open>should_continue\<close> returns, as code points.\<close>

definition msg_step_limit :: pystr where
  "msg_step_limit = [0x8FBE, 0x5230, 0x6700, 0x5927, 0x6B65, 0x6570, 0x9650, 0x5236]"

definition msg_critical_finding :: pystr where
  "msg_critical_finding = [0x627E, 0x5230, 0x5173, 0x952E, 0x95EE, 0x9898]"

definition msg_stagnation :: pystr where
  "msg_stagnation = [0x8FDE, 0x7EED, 0x591A, 0x6B65, 0x65E0, 0x65B0, 0x53D1, 0x73B0]"

definition msg_coverage :: pystr where
  "msg_coverage = [0x5DF2, 0x5B8C, 0x6210, 0x5168, 0x9762, 0x68C0, 0x67E5]"

definition msg_in_progress :: pystr where
  "msg_in_progress = [0x7EE7, 0x7EED, 0x8BCA, 0x65AD]"

definition should_continue :: "state_manager \<Rightarrow> int \<Rightarrow> bool \<times> pystr" where
  "should_continue s max_steps =
     (if step_count s \<ge> max_steps then (False, msg_step_limit)
      else if has_critical_finding s then (False, msg_critical_finding)
      else if no_new_findings_recently s 3 \<and> step_count s \<ge> 3 then (False, msg_stagnation)
      else if sufficient_coverage s then (False, msg_coverage)
      else (True, msg_in_progress))"

text \<open>
  A sequence of calls on one session.  An exception ends the sequence, as it ends the
  run.
\<close>

datatype call =
    RecordAction pystr json json pystr
  | UpdateChain pystr pystr pystr json

fun run_call :: "call \<Rightarrow> state_manager \<Rightarrow> error + state_manager" where
  "run_call (RecordAction n rq rs why) s = add_execution n rq rs why s"
| "run_call (UpdateChain a r c nf) s = Inr (update_diagnostic_chain a r c nf s)"

fun run_calls :: "call list \<Rightarrow> state_manager \<Rightarrow> error + state_manager" where
  "run_calls [] s = Inr s"
| "run_calls (c # cs) s =
     (case run_call c s of Inl e \<Rightarrow> Inl e | Inr s' \<Rightarrow> run_calls cs s')"

fun is_record_action :: "call \<Rightarrow> bool" where
  "is_record_action (RecordAction n rq rs why) = True"
| "is_record_action (UpdateChain a r c nf) = False"

definition session_sizes :: "state_manager \<Rightarrow> int \<times> nat \<times> nat" where
  "session_sizes s = (step_count s, length (executed_tools s), length (diagnostic_chain s))"

section \<open>Equality of Python values\<close>

text \<open>
  \<open>==\<close> on the values of \<open>json.loads\<close>: \<open>True == 1\<close>, lists compare element by
  element, dicts compare by keys and values whatever the insertion order.
\<close>

fun py_eq :: "json \<Rightarrow> json \<Rightarrow> bool"
  and py_eq_list :: "json list \<Rightarrow> json list \<Rightarrow> bool"
  and py_eq_items :: "(pystr \<times> json) list \<Rightarrow> (pystr \<times> json) list \<Rightarrow> bool" where
  "py_eq JNull y = (y = JNull)"
| "py_eq (JBool a) y =
     (case y of JBool b \<Rightarrow> a = b | JNum n \<Rightarrow> (if a then 1 else 0) = n | _ \<Rightarrow> False)"
| "py_eq (JNum m) y =
     (case y of JNum n \<Rightarrow> m = n | JBool b \<Rightarrow> m = (if b then 1 else 0) | _ \<Rightarrow> False)"
| "py_eq (JStr s) y = (y = JStr s)"
| "py_eq (JList xs) y = (case y of JList ys \<Rightarrow> py_eq_list xs ys | _ \<Rightarrow> False)"
| "py_eq (JDict d) y =
     (case y of JDict e \<Rightarrow> length d = length e \<and> py_eq_items d e | _ \<Rightarrow> False)"
| "py_eq_list [] ys = (ys = [])"
| "py_eq_list (x # xs) ys =
     (case ys of [] \<Rightarrow> False | y # ys' \<Rightarrow> py_eq x y \<and> py_eq_list xs ys')"
| "py_eq_items [] e = True"
| "py_eq_items (kv # d) e =
     (case map_of e (fst kv) of
        None \<Rightarrow> False
      | Some v' \<Rightarrow> py_eq (snd kv) v' \<and> py_eq_items d e)"

text \<open>
  \<open>str(v)\<close>: the string itself for a \<open>str\<close>; for the other values Python's \<open>repr\<close>,
  which the model takes as a parameter.
\<close>

definition py_str :: "(json \<Rightarrow> pystr) \<Rightarrow> json \<Rightarrow> pystr" where
  "py_str repr v = (case v of JStr s \<Rightarrow> s | _ \<Rightarrow> repr v)"

section \<open>StructuredOutputGenerator and the helpers of structured\_output.py\<close>

record action_obs =
  ao_name :: pystr
  ao_args :: json
  ao_observation :: json

text \<open>One entry of \<open>steps\<close>: the dict \<open>{"step<n>": {"cot": ..., "coa": [...]}}\<close>.\<close>

record step_data =
  sd_key :: int
  sd_cot :: pystr
  sd_coa :: "action_obs list"

record output_generator =
  current_step :: int
  steps :: "step_data list"
  known_entities :: "(pystr \<times> json list) list"

definition init_generator :: output_generator where
  "init_generator = \<lparr> current_step = 0, steps = [], known_entities = [] \<rparr>"

definition start_step :: "pystr \<Rightarrow> output_generator \<Rightarrow> output_generator" where
  "start_step reasoning g =
     g \<lparr> current_step := current_step g + 1,
         steps := steps g @
           [\<lparr> sd_key = current_step g + 1, sd_cot = reasoning, sd_coa = [] \<rparr>] \<rparr>"

definition add_action_observation ::
  "pystr \<Rightarrow> json \<Rightarrow> json \<Rightarrow> output_generator \<Rightarrow> error + output_generator" where
  "add_action_observation tool_name tool_args observation g =
     (if steps g = [] then Inl ValueError
      else if sd_key (last (steps g)) \<noteq> current_step g then Inl KeyError
      else Inr (g \<lparr> steps := butlast (steps g) @
             [(last (steps g)) \<lparr> sd_coa := sd_coa (last (steps g)) @
                [\<lparr> ao_name = tool_name, ao_args = tool_args,
                   ao_observation = observation \<rparr>] \<rparr>] \<rparr>))"

definition update_known_entities ::
  "pystr \<Rightarrow> json list \<Rightarrow> output_generator \<Rightarrow> output_generator" where
  "update_known_entities entity_type entities g =
     g \<lparr> known_entities := AList.update entity_type entities (known_entities g) \<rparr>"

definition get_known_entities :: "output_generator \<Rightarrow> pystr \<Rightarrow> json list" where
  "get_known_entities g entity_type =
     (case map_of (known_entities g) entity_type of None \<Rightarrow> [] | Some es \<Rightarrow> es)"

text \<open>The key names \<open>extract_entities_from_observation\<close> tries, in its order.\<close>

definition entity_keys :: "pystr list" where
  "entity_keys =
     [[0x63A5, 0x53E3], asc ''interface'', asc ''interface_name'',
      [0x8BBE, 0x5907], asc ''device'', asc ''device_name'']"

fun first_present :: "pystr list \<Rightarrow> pydict \<Rightarrow> json option" where
  "first_present [] d = None"
| "first_present (key # keys) d =
     (case map_of d key of Some v \<Rightarrow> Some v | None \<Rightarrow> first_present keys d)"

fun entities_of_items :: "json list \<Rightarrow> json list" where
  "entities_of_items [] = []"
| "entities_of_items (item # items) =
     (case item of
        JDict d \<Rightarrow>
          (case first_present entity_keys d of
             Some v \<Rightarrow> v # entities_of_items items
           | None \<Rightarrow> entities_of_items items)
      | _ \<Rightarrow> entities_of_items items)"

text \<open>The argument \<open>entity_type\<close> is not read by the source.\<close>

definition extract_entities_from_observation :: "json \<Rightarrow> pystr \<Rightarrow> json list" where
  "extract_entities_from_observation observation entity_type =
     (case observation of
        JList items \<Rightarrow> entities_of_items items
      | JDict d \<Rightarrow> (case first_present entity_keys d of Some v \<Rightarrow> [v] | None \<Rightarrow> [])
      | _ \<Rightarrow> [])"

definition batch_keywords :: "pystr list" where
  "batch_keywords =
     [[0x9010, 0x4E00], [0x6BCF, 0x4E2A], [0x6240, 0x6709], [0x6279, 0x91CF],
      [0x904D, 0x5386], [0x68C0, 0x67E5, 0x6240, 0x6709]]"

definition should_batch_execute :: "pystr \<Rightarrow> json list \<Rightarrow> bool" where
  "should_batch_execute reasoning entities =
     (if length entities > 1 then list_ex (\<lambda>keyword. contains keyword reasoning) batch_keywords
      else False)"

section \<open>One pass of the loop of AgentGenerator.generate (agent\_generator\_new.py)\<close>

definition get_relevant_entities :: "output_generator \<Rightarrow> pystr \<Rightarrow> json list" where
  "get_relevant_entities generator tool_name =
     (let tool_name_lower = py_lower tool_name
      in if contains (asc ''interface'') tool_name_lower
         then get_known_entities generator (asc ''interfaces'')
         else if contains (asc ''device'') tool_name_lower
         then get_known_entities generator (asc ''devices'')
         else [])"

definition update_tool_request_for_entity :: "pydict \<Rightarrow> json \<Rightarrow> pystr \<Rightarrow> pydict" where
  "update_tool_request_for_entity request entity tool_name =
     (let tool_name_lower = py_lower tool_name
      in if contains (asc ''interface'') tool_name_lower
         then AList.update (asc ''interface_name'') entity request
         else if contains (asc ''device'') tool_name_lower
         then AList.update (asc ''device_name'') entity request
         else request)"

text \<open>The dict \<open>{'type': ..., 'content': ...}\<close> that \<open>_analyze_tool_response\<close> builds.\<close>

record analysis =
  an_type :: pystr
  an_content :: pystr

definition content_down :: pystr where
  "content_down = [0x53D1, 0x73B0, 0x5F02, 0x5E38, 0x3A, 0x20, 0x63A5, 0x53E3, 0x72B6,
     0x6001, 0x4E3A] @ asc ''down''"

definition content_errors :: pystr where
  "content_errors = [0x53D1, 0x73B0, 0x9519, 0x5305, 0x6216, 0x9519, 0x8BEF, 0x7EDF,
     0x8BA1, 0x5F02, 0x5E38]"

definition content_normal :: pystr where
  "content_normal = [0x6570, 0x636E, 0x83B7, 0x53D6, 0x6210, 0x529F, 0xFF0C, 0x672A,
     0x53D1, 0x73B0, 0x660E, 0x663E, 0x5F02, 0x5E38]"

definition content_records :: "nat \<Rightarrow> pystr" where
  "content_records n = [0x6210, 0x529F, 0x83B7, 0x53D6] @ str_of_nat n @ [0x6761, 0x8BB0, 0x5F55]"

definition dict_get_eq :: "pydict \<Rightarrow> pystr \<Rightarrow> json \<Rightarrow> bool" where
  "dict_get_eq d key v = (case map_of d key of None \<Rightarrow> py_eq JNull v | Some w \<Rightarrow> py_eq w v)"

definition analyze_tool_response ::
  "(json \<Rightarrow> pystr) \<Rightarrow> pystr \<Rightarrow> json \<Rightarrow> analysis option" where
  "analyze_tool_response repr tool_name response =
     (if \<not> truthy response then None
      else case response of
        JDict d \<Rightarrow>
          if dict_get_eq d (asc ''status'') (JStr (asc ''down'')) \<or>
             dict_get_eq d [0x72B6, 0x6001] (JStr (asc ''down''))
          then Some \<lparr> an_type = asc ''anomaly'', an_content = content_down \<rparr>
          else if map_of d (asc ''errors'') \<noteq> None \<or>
                  contains [0x9519, 0x5305] (py_str repr response)
          then Some \<lparr> an_type = asc ''anomaly'', an_content = content_errors \<rparr>
          else Some \<lparr> an_type = asc ''normal'', an_content = content_normal \<rparr>
      | JList xs \<Rightarrow> Some \<lparr> an_type = asc ''info'', an_content = content_records (length xs) \<rparr>
      | _ \<Rightarrow> None)"

definition summary_keys :: "pystr list" where
  "summary_keys = [asc ''status'', [0x72B6, 0x6001], asc ''errors'', [0x9519, 0x5305],
     asc ''interface'', [0x63A5, 0x53E3]]"

fun join :: "pystr \<Rightarrow> pystr list \<Rightarrow> pystr" where
  "join sep [] = []"
| "join sep [x] = x"
| "join sep (x # y # ys) = x @ sep @ join sep (y # ys)"

definition summarize_tool_result :: "(json \<Rightarrow> pystr) \<Rightarrow> json \<Rightarrow> pystr" where
  "summarize_tool_result repr result =
     (case result of
        JList xs \<Rightarrow> [0x8FD4, 0x56DE] @ str_of_nat (length xs) @ [0x6761, 0x8BB0, 0x5F55]
      | JDict d \<Rightarrow>
          (let key_fields =
                 concat (map (\<lambda>key. case map_of d key of
                                       None \<Rightarrow> []
                                     | Some v \<Rightarrow> [key @ asc ''='' @ py_str repr v])
                           summary_keys)
           in if key_fields \<noteq> [] then join (asc '', '') (take 3 key_fields)
              else [0x6570, 0x636E, 0x83B7, 0x53D6, 0x6210, 0x529F])
      | _ \<Rightarrow> take 50 (py_str repr result))"

definition generate_conclusion :: "json \<Rightarrow> analysis option \<Rightarrow> pystr" where
  "generate_conclusion response finding =
     (case finding of
        Some f \<Rightarrow>
          if an_type f = asc ''anomaly''
          then [0x53D1, 0x73B0, 0x5F02, 0x5E38, 0x3A, 0x20] @ an_content f
          else if an_type f = asc ''normal''
          then [0x6B63, 0x5E38, 0xFF0C, 0x65E0, 0x5F02, 0x5E38]
          else an_content f
      | None \<Rightarrow> [0x5DF2, 0x6267, 0x884C])"

text \<open>
  The batch branch: the action runs once per entity, every observation goes to the
  output, and the state records the executions whose entity equals the first one.
  \<open>exec i\<close> is what the executor returns to the \<open>i\<close>-th call of the pass;
  \<open>EnhancedWorldModel.execute_tool\<close> always returns a dict.
\<close>

fun batch_loop ::
  "(nat \<Rightarrow> pydict) \<Rightarrow> pystr \<Rightarrow> pydict \<Rightarrow> pystr \<Rightarrow> json \<Rightarrow> json list \<Rightarrow> nat \<Rightarrow>
   state_manager \<times> output_generator \<Rightarrow> error + state_manager \<times> output_generator" where
  "batch_loop exec tool_name request reasoning first [] i (state, og) = Inr (state, og)"
| "batch_loop exec tool_name request reasoning first (entity # rest) i (state, og) =
     (let tool_request = update_tool_request_for_entity request entity tool_name;
          tool_response = exec i
      in case add_action_observation tool_name (JDict tool_request) (JDict tool_response) og of
           Inl e \<Rightarrow> Inl e
         | Inr og' \<Rightarrow>
             if py_eq entity first
             then (case add_execution tool_name (JDict tool_request) (JDict tool_response)
                          reasoning state of
                     Inl e \<Rightarrow> Inl e
                   | Inr state' \<Rightarrow>
                       batch_loop exec tool_name request reasoning first rest (Suc i)
                         (state', og'))
             else batch_loop exec tool_name request reasoning first rest (Suc i) (state, og'))"

text \<open>Lines 274 to 285: the entities of the observation replace the known lists.\<close>

definition discover_entities :: "json \<Rightarrow> output_generator \<Rightarrow> output_generator" where
  "discover_entities tool_response og =
     (let interfaces = extract_entities_from_observation tool_response (asc ''interface'');
          og1 = (if interfaces \<noteq> []
                 then update_known_entities (asc ''interfaces'') interfaces og else og);
          devices = extract_entities_from_observation tool_response (asc ''device'')
      in if devices \<noteq> [] then update_known_entities (asc ''devices'') devices og1 else og1)"

text \<open>Lines 287 to 303: the finding and the chain entry of the pass.\<close>

definition record_outcome ::
  "(json \<Rightarrow> pystr) \<Rightarrow> pystr \<Rightarrow> pystr \<Rightarrow> json \<Rightarrow> json \<Rightarrow> state_manager \<Rightarrow> state_manager" where
  "record_outcome repr tool_name reasoning next_focus tool_response state =
     (let finding = analyze_tool_response repr tool_name tool_response;
          state1 = (case finding of
                      Some f \<Rightarrow> add_finding (an_type f) (an_content f) state
                    | None \<Rightarrow> state)
      in update_diagnostic_chain
           (tool_name @ asc '' - '' @ take 50 reasoning @
              (if length reasoning > 50 then asc ''...'' else []))
           (summarize_tool_result repr tool_response)
           (generate_conclusion tool_response finding)
           next_focus state1)"

text \<open>
  The pass, from \<open>start_step\<close> to \<open>update_diagnostic_chain\<close>, for a plan with the given
  tool name, request, reasoning and next focus.
\<close>

definition run_step ::
  "(json \<Rightarrow> pystr) \<Rightarrow> (nat \<Rightarrow> pydict) \<Rightarrow> pystr \<Rightarrow> pydict \<Rightarrow> pystr \<Rightarrow> json \<Rightarrow>
   state_manager \<times> output_generator \<Rightarrow> error + state_manager \<times> output_generator" where
  "run_step repr exec tool_name request reasoning next_focus sg =
     (let state = fst sg;
          og = start_step reasoning (snd sg);
          relevant_entities = get_relevant_entities og tool_name
      in if relevant_entities \<noteq> [] \<and> length relevant_entities > 1 \<and>
            should_batch_execute reasoning relevant_entities
         then (case batch_loop exec tool_name request reasoning (hd relevant_entities)
                      relevant_entities 0 (state, og) of
                 Inl e \<Rightarrow> Inl e
               | Inr (state', og') \<Rightarrow>
                   Inr (record_outcome repr tool_name reasoning next_focus
                          (JDict (exec (length relevant_entities - 1))) state', og'))
         else (let tool_response = JDict (exec 0)
               in case add_action_observation tool_name (JDict request) tool_response og of
                    Inl e \<Rightarrow> Inl e
                  | Inr og' \<Rightarrow>
                      (case add_execution tool_name (JDict request) tool_response reasoning
                              state of
                         Inl e \<Rightarrow> Inl e
                       | Inr state' \<Rightarrow>
                           Inr (record_outcome repr tool_name reasoning next_focus
                                  tool_response state',
                                discover_entities tool_response og'))))"

text \<open>The observations the output holds for its current step.\<close>

definition current_coa :: "output_generator \<Rightarrow> action_obs list" where
  "current_coa og = (if steps og = [] then [] else sd_coa (last (steps og)))"

section \<open>EnhancedPlanner (batch\_processor.py, lines 1218 to 2033)\<close>

text \<open>
  Modelled from the spec: \<open>ToolManager.get_all_tool_names\<close>, which the planner calls
  and the tool manager of the repository does not define.  The spec's catalog "holds the set of
  valid action names" and the strict re-query "supplies the full list of valid action
  names": the names of \<open>tools\<close>, in the order they were loaded.
\<close>

definition get_all_tool_names :: "tool_manager \<Rightarrow> pystr list" where
  "get_all_tool_names tm = map fst (tools tm)"

subsection \<open>Parameter validation and repair\<close>

definition invalid_patterns :: "pystr list" where
  "invalid_patterns =
     [[0x8BBE, 0x5907], [0x63A5, 0x53E3], [0x6240, 0x5728], [0x67D0, 0x4E2A],
      [0x8FD9, 0x4E2A], [0x90A3, 0x4E2A],
      asc ''device'', asc ''interface'', asc ''ip'', asc ''port'', asc ''vlan'',
      [0x672A, 0x77E5], [0x5F85, 0x5B9A], asc ''unknown'', asc ''tbd'',
      asc ''...'', asc ''xxx'', asc ''yyy'']"

definition is_valid_parameter_value :: "json \<Rightarrow> bool" where
  "is_valid_parameter_value v =
     (case v of
        JStr s \<Rightarrow>
          if s = [] then False
          else (let value_lower = py_strip (py_lower s)
                in \<not> list_ex (\<lambda>pattern.
                       value_lower = pattern \<or>
                       (length s < 15 \<and> contains pattern value_lower \<and>
                        47 \<notin> set s \<and> 46 \<notin> set s))
                     invalid_patterns)
      | _ \<Rightarrow> False)"

record known_params =
  device_name :: "pystr list"
  interface_name :: "pystr list"
  ip :: "pystr list"
  vlan :: "pystr list"
  hostname :: "pystr list"

datatype param_kind = Device | Interface | Ip

definition add_known :: "param_kind \<Rightarrow> pystr \<Rightarrow> known_params \<Rightarrow> known_params" where
  "add_known k v known =
     (case k of
        Device \<Rightarrow> known \<lparr> device_name := device_name known @ [v] \<rparr>
      | Interface \<Rightarrow> known \<lparr> interface_name := interface_name known @ [v] \<rparr>
      | Ip \<Rightarrow> known \<lparr> ip := ip known @ [v] \<rparr>)"

text \<open>The chain \<open>'device' in key.lower()\<close>, \<open>elif 'interface' ...\<close>, \<open>elif 'ip' ...\<close>.\<close>

definition kind_of_name :: "pystr \<Rightarrow> param_kind option" where
  "kind_of_name key =
     (let l = py_lower key
      in if contains (asc ''device'') l then Some Device
         else if contains (asc ''interface'') l then Some Interface
         else if contains (asc ''ip'') l then Some Ip
         else None)"

text \<open>The chain on the keys of a response dict; the list branch also knows the
  address-with-mask key and keeps what precedes the first slash.\<close>

definition kind_of_response_key :: "bool \<Rightarrow> pystr \<Rightarrow> param_kind option" where
  "kind_of_response_key in_list key =
     (if key \<in> set [[0x8BBE, 0x5907], asc ''device'', asc ''device_name''] then Some Device
      else if key \<in> set [[0x63A5, 0x53E3], asc ''interface'', asc ''interface_name'']
      then Some Interface
      else if key \<in> set ([asc ''IP'', asc ''IP'' @ [0x5730, 0x5740], asc ''ip''] @
                (if in_list then [asc ''IP'' @ [0x5730, 0x5740, 0x2F, 0x63A9, 0x7801]] else []))
      then Some Ip
      else None)"

definition goal_param ::
  "(json \<Rightarrow> pystr) \<Rightarrow> pystr \<times> json \<Rightarrow> known_params \<Rightarrow> known_params" where
  "goal_param repr kv known =
     (case kind_of_name (fst kv) of
        None \<Rightarrow> known
      | Some k \<Rightarrow>
          if truthy (snd kv) \<and> is_valid_parameter_value (JStr (py_str repr (snd kv)))
          then add_known k (py_str repr (snd kv)) known
          else known)"

definition request_param ::
  "(json \<Rightarrow> pystr) \<Rightarrow> pystr \<times> json \<Rightarrow> known_params \<Rightarrow> known_params" where
  "request_param repr kv known =
     (if truthy (snd kv) \<and> is_valid_parameter_value (JStr (py_str repr (snd kv)))
      then (case kind_of_name (fst kv) of
              None \<Rightarrow> known
            | Some k \<Rightarrow> add_known k (py_str repr (snd kv)) known)
      else known)"

definition response_param ::
  "(json \<Rightarrow> pystr) \<Rightarrow> pystr \<times> json \<Rightarrow> known_params \<Rightarrow> known_params" where
  "response_param repr kv known =
     (if truthy (snd kv) \<and> is_valid_parameter_value (JStr (py_str repr (snd kv)))
      then (case kind_of_response_key False (fst kv) of
              None \<Rightarrow> known
            | Some k \<Rightarrow> add_known k (py_str repr (snd kv)) known)
      else known)"

definition response_item_param ::
  "(json \<Rightarrow> pystr) \<Rightarrow> pystr \<times> json \<Rightarrow> known_params \<Rightarrow> known_params" where
  "response_item_param repr kv known =
     (if truthy (snd kv) \<and> is_valid_parameter_value (JStr (py_str repr (snd kv)))
      then (case kind_of_response_key True (fst kv) of
              None \<Rightarrow> known
            | Some Ip \<Rightarrow>
                (let ip_value = takeWhile (\<lambda>c. c \<noteq> 47) (py_str repr (snd kv))
                 in if is_valid_parameter_value (JStr ip_value)
                    then add_known Ip ip_value known else known)
            | Some k \<Rightarrow> add_known k (py_str repr (snd kv)) known)
      else known)"

definition execution_params ::
  "(json \<Rightarrow> pystr) \<Rightarrow> execution \<Rightarrow> known_params \<Rightarrow> error + known_params" where
  "execution_params repr execution known =
     (case ex_tool_request execution of
        JDict tool_request \<Rightarrow>
          (let known1 = fold (request_param repr) tool_request known
           in Inr (case ex_tool_response execution of
                     JDict tool_response \<Rightarrow> fold (response_param repr) tool_response known1
                   | JList items \<Rightarrow>
                       fold (\<lambda>item acc.
                               case item of
                                 JDict d \<Rightarrow> fold (response_item_param repr) d acc
                               | _ \<Rightarrow> acc) items known1
                   | _ \<Rightarrow> known1))
      | _ \<Rightarrow> Inl AttributeError)"

fun history_params ::
  "(json \<Rightarrow> pystr) \<Rightarrow> execution list \<Rightarrow> known_params \<Rightarrow> error + known_params" where
  "history_params repr [] known = Inr known"
| "history_params repr (execution # rest) known =
     (case execution_params repr execution known of
        Inl e \<Rightarrow> Inl e
      | Inr known' \<Rightarrow> history_params repr rest known')"

text \<open>\<open>goal.get(key, {})\<close> used as a mapping: unpacking a value that is no dict raises.\<close>

definition goal_mapping :: "pydict \<Rightarrow> pystr \<Rightarrow> error + pydict" where
  "goal_mapping goal key =
     (case map_of goal key of
        None \<Rightarrow> Inr []
      | Some (JDict d) \<Rightarrow> Inr d
      | Some _ \<Rightarrow> Inl TypeError)"

text \<open>\<open>{**a, **b}\<close>: the keys of \<open>a\<close> in their order, the values of \<open>b\<close> winning.\<close>

definition merge_dicts :: "pydict \<Rightarrow> pydict \<Rightarrow> pydict" where
  "merge_dicts a b = fold (\<lambda>kv acc. AList.update (fst kv) (snd kv) acc) b a"

text \<open>
  \<open>_extract_known_parameters\<close>.  \<open>list(set(xs))\<close> keeps the elements of \<open>xs\<close> once each,
  in an order Python does not fix: the model takes that order as the parameter \<open>ord\<close>.
\<close>

definition collect_known_parameters ::
  "(json \<Rightarrow> pystr) \<Rightarrow> state_manager \<Rightarrow> pydict \<Rightarrow> error + known_params" where
  "collect_known_parameters repr state goal =
     (case goal_mapping goal (asc ''entities'') of
        Inl e \<Rightarrow> Inl e
      | Inr goal_entities \<Rightarrow>
          (case goal_mapping goal (asc ''context_params'') of
             Inl e \<Rightarrow> Inl e
           | Inr context_params \<Rightarrow>
               history_params repr (executed_tools state)
                 (fold (goal_param repr) (merge_dicts goal_entities context_params)
                    \<lparr> device_name = [], interface_name = [], ip = [], vlan = [],
                      hostname = [] \<rparr>)))"

definition extract_known_parameters ::
  "(json \<Rightarrow> pystr) \<Rightarrow> (pystr list \<Rightarrow> pystr list) \<Rightarrow> state_manager \<Rightarrow> pydict \<Rightarrow>
   error + known_params" where
  "extract_known_parameters repr ord state goal =
     (case collect_known_parameters repr state goal of
        Inl e \<Rightarrow> Inl e
      | Inr known \<Rightarrow>
          Inr \<lparr> device_name = ord (device_name known),
                interface_name = ord (interface_name known),
                ip = ord (ip known), vlan = ord (vlan known),
                hostname = ord (hostname known) \<rparr>)"

definition first_or_empty :: "pystr list \<Rightarrow> pystr" where
  "first_or_empty xs = (case xs of [] \<Rightarrow> [] | x # _ \<Rightarrow> x)"

definition find_valid_parameter :: "pystr \<Rightarrow> known_params \<Rightarrow> pystr" where
  "find_valid_parameter param_name known =
     (let param_name_lower = py_lower param_name
      in if contains (asc ''device'') param_name_lower then first_or_empty (device_name known)
         else if contains (asc ''interface'') param_name_lower
         then first_or_empty (interface_name known)
         else if contains (asc ''ip'') param_name_lower then first_or_empty (ip known)
         else if contains (asc ''vlan'') param_name_lower then first_or_empty (vlan known)
         else if contains (asc ''hostname'') param_name_lower
         then first_or_empty (hostname known)
         else [])"

definition fix_parameter :: "known_params \<Rightarrow> pystr \<times> json \<Rightarrow> pydict \<Rightarrow> pydict" where
  "fix_parameter known kv tool_request =
     (let valid_value = find_valid_parameter (fst kv) known
      in if valid_value \<noteq> [] then AList.update (fst kv) (JStr valid_value) tool_request
         else tool_request)"

definition validate_and_fix_parameters ::
  "(json \<Rightarrow> pystr) \<Rightarrow> (pystr list \<Rightarrow> pystr list) \<Rightarrow> pydict \<Rightarrow> state_manager \<Rightarrow> pydict \<Rightarrow>
   error + pydict" where
  "validate_and_fix_parameters repr ord plan state goal =
     (let tool_request = (case map_of plan (asc ''tool_request'') of
                            None \<Rightarrow> JDict [] | Some v \<Rightarrow> v)
      in case extract_known_parameters repr ord state goal of
           Inl e \<Rightarrow> Inl e
         | Inr known \<Rightarrow>
             (case tool_request of
                JDict d \<Rightarrow>
                  (let invalid_params = filter (\<lambda>kv. \<not> is_valid_parameter_value (snd kv)) d
                   in Inr (AList.update (asc ''tool_request'')
                             (JDict (fold (fix_parameter known) invalid_params d)) plan))
              | _ \<Rightarrow> Inl AttributeError))"

subsection \<open>Candidates and their scores\<close>

text \<open>
  What one call to the collaborator gives: the call raises, or \<open>_parse_json_response\<close>
  returns the parsed value (the empty dict when the text does not parse).
\<close>

datatype llm_reply = CallFails | Reply json

text \<open>\<open>is_valid_tool\<close> on whatever the candidate holds under \<open>tool_name\<close>: a list or a
  dict cannot be hashed for the lookup in \<open>self.tools\<close>.\<close>

definition is_valid_tool_any :: "tool_manager \<Rightarrow> json \<Rightarrow> error + bool" where
  "is_valid_tool_any tm v =
     (case v of
        JStr s \<Rightarrow> Inr (is_valid_tool tm s)
      | JList xs \<Rightarrow> Inl TypeError
      | JDict d \<Rightarrow> Inl TypeError
      | _ \<Rightarrow> Inr False)"

text \<open>\<open>candidate and 'tool_name' in candidate\<close>, then \<open>candidate['tool_name']\<close>: the
  name the candidate carries, if it carries one.\<close>

definition candidate_name :: "json \<Rightarrow> error + json option" where
  "candidate_name c =
     (if \<not> truthy c then Inr None
      else case c of
        JDict d \<Rightarrow> Inr (map_of d (asc ''tool_name''))
      | JStr s \<Rightarrow> if contains (asc ''tool_name'') s then Inl TypeError else Inr None
      | JList xs \<Rightarrow>
          if list_ex (\<lambda>x. py_eq x (JStr (asc ''tool_name''))) xs then Inl TypeError
          else Inr None
      | _ \<Rightarrow> Inl TypeError)"

fun collect_candidates :: "tool_manager \<Rightarrow> json list \<Rightarrow> llm_reply list \<Rightarrow> json list" where
  "collect_candidates tm candidates [] = candidates"
| "collect_candidates tm candidates (CallFails # rest) = []"
| "collect_candidates tm candidates (Reply c # rest) =
     (case candidate_name c of
        Inl e \<Rightarrow> []
      | Inr None \<Rightarrow> collect_candidates tm candidates rest
      | Inr (Some name) \<Rightarrow>
          (case is_valid_tool_any tm name of
             Inl e \<Rightarrow> []
           | Inr True \<Rightarrow> collect_candidates tm (candidates @ [c]) rest
           | Inr False \<Rightarrow> collect_candidates tm candidates rest))"

text \<open>\<open>_get_tool_candidates\<close> with \<open>top_k = 3\<close>: \<open>llm i\<close> is the reply to call \<open>i\<close>.\<close>

definition get_tool_candidates :: "tool_manager \<Rightarrow> (nat \<Rightarrow> llm_reply) \<Rightarrow> json list" where
  "get_tool_candidates tm llm = collect_candidates tm [] (map llm [0, 1, 2])"

text \<open>\<open>candidates.index(candidate)\<close> while the loop stands at \<open>candidate\<close>: the position
  of the first earlier element equal to it, or its own position.\<close>

fun index_among :: "json list \<Rightarrow> json \<Rightarrow> nat" where
  "index_among [] c = 0"
| "index_among (d # ds) c = (if py_eq d c then 0 else Suc (index_among ds c))"

text \<open>\<open>state.get_tool_usage_count(tool_name)\<close> for any value under \<open>tool_name\<close>.\<close>

definition usage_count_any :: "state_manager \<Rightarrow> json \<Rightarrow> error + nat" where
  "usage_count_any state v =
     (case v of
        JStr s \<Rightarrow> Inr (get_tool_usage_count state s)
      | JList xs \<Rightarrow> Inl TypeError
      | JDict d \<Rightarrow> Inl TypeError
      | _ \<Rightarrow> Inr 0)"

text \<open>\<open>candidate[key]\<close> and \<open>candidate[key] = v\<close> on a candidate: only a dict has
  both.\<close>

definition candidate_get :: "json \<Rightarrow> pystr \<Rightarrow> error + json" where
  "candidate_get c key =
     (case c of
        JDict d \<Rightarrow> (case map_of d key of None \<Rightarrow> Inl KeyError | Some v \<Rightarrow> Inr v)
      | _ \<Rightarrow> Inl TypeError)"

definition candidate_set :: "json \<Rightarrow> pystr \<Rightarrow> json \<Rightarrow> error + json" where
  "candidate_set c key v =
     (case c of JDict d \<Rightarrow> Inr (JDict (AList.update key v d)) | _ \<Rightarrow> Inl TypeError)"

text \<open>
  The scoring loop: \<open>scored\<close> are the candidates already given a score, in place.
  \<open>2.0 / (usage_count + 1)\<close> converts the \<open>int\<close> and divides two floats;
  \<open>base_score + exploration_bonus\<close> converts the \<open>int\<close> and adds two floats.
\<close>

fun score_candidates ::
  "(rat \<Rightarrow> rat) \<Rightarrow> state_manager \<Rightarrow> nat \<Rightarrow> json list \<Rightarrow> json list \<Rightarrow>
   error + json list" where
  "score_candidates fl state n_total scored [] = Inr scored"
| "score_candidates fl state n_total scored (candidate # rest) =
     (case candidate_get candidate (asc ''tool_name'') of
        Inl e \<Rightarrow> Inl e
      | Inr tool_name \<Rightarrow>
          (let base_score = int n_total - int (index_among scored candidate)
           in case usage_count_any state tool_name of
                Inl e \<Rightarrow> Inl e
              | Inr usage_count \<Rightarrow>
                  (let exploration_bonus = fl (2 / fl (of_nat (usage_count + 1)))
                   in case candidate_set candidate (asc ''score'')
                             (JNum (fl (fl (of_int base_score) + exploration_bonus))) of
                        Inl e \<Rightarrow> Inl e
                      | Inr candidate' \<Rightarrow>
                          score_candidates fl state n_total (scored @ [candidate']) rest)))"

definition score_of :: "json \<Rightarrow> rat" where
  "score_of c =
     (case c of
        JDict d \<Rightarrow> (case map_of d (asc ''score'') of Some (JNum r) \<Rightarrow> r | _ \<Rightarrow> 0)
      | _ \<Rightarrow> 0)"

text \<open>
  The random draws of one call: \<open>random.random()\<close>, the index \<open>random.choice\<close> picks,
  and the \<open>random()\<close> inside \<open>random.choices\<close>.
\<close>

record draws =
  uniform :: rat
  choice_index :: nat
  weighted :: rat

text \<open>\<open>itertools.accumulate\<close> on floats: the first weight, then the rounded
  running sums.\<close>

fun sums_from :: "(rat \<Rightarrow> rat) \<Rightarrow> rat \<Rightarrow> rat list \<Rightarrow> rat list" where
  "sums_from fl acc [] = []"
| "sums_from fl acc (w # ws) = fl (acc + w) # sums_from fl (fl (acc + w)) ws"

definition accumulate :: "(rat \<Rightarrow> rat) \<Rightarrow> rat list \<Rightarrow> rat list" where
  "accumulate fl weights = (case weights of [] \<Rightarrow> [] | w # ws \<Rightarrow> w # sums_from fl w ws)"

text \<open>\<open>bisect.bisect_right(a, x, lo, hi)\<close>.\<close>

function bisect_right :: "rat list \<Rightarrow> rat \<Rightarrow> nat \<Rightarrow> nat \<Rightarrow> nat" where
  "bisect_right a x lo hi =
     (if lo < hi
      then (let mid = (lo + hi) div 2
            in if x < a ! mid then bisect_right a x lo mid
               else bisect_right a x (mid + 1) hi)
      else lo)"
  by pat_completeness auto
termination
  by (relation "measure (\<lambda>(a, x, lo, hi). hi - lo)") auto

declare bisect_right.simps [simp del]

text \<open>
  \<open>random.choices(population, weights, k=1)[0]\<close>, with \<open>u\<close> the value of
  \<open>random()\<close>: the running sums, their total, and the bisection for \<open>u * total\<close>
  among the first \<open>n - 1\<close> sums.
\<close>

definition weighted_choice ::
  "(rat \<Rightarrow> rat) \<Rightarrow> rat \<Rightarrow> json list \<Rightarrow> rat list \<Rightarrow> error + json" where
  "weighted_choice fl u population weights =
     (let n = length population;
          cum_weights = accumulate fl weights
      in if cum_weights = [] then Inl IndexError
         else let total_weight = fl (last cum_weights + 0)
              in if total_weight \<le> 0 then Inl ValueError
                 else Inr (population !
                        bisect_right cum_weights (fl (u * total_weight)) 0 (n - 1)))"

definition apply_exploration_strategy ::
  "(rat \<Rightarrow> rat) \<Rightarrow> pystr \<Rightarrow> draws \<Rightarrow> json list \<Rightarrow> state_manager \<Rightarrow> error + json" where
  "apply_exploration_strategy fl exploration_mode rnd candidates state =
     (if candidates = [] then Inr (JDict [(asc ''error'', JStr [0x65E0, 0x5019, 0x9009, 0x5DE5, 0x5177])])
      else case score_candidates fl state (length candidates) [] candidates of
        Inl e \<Rightarrow> Inl e
      | Inr scored \<Rightarrow>
          (let sorted_candidates = sort_key (\<lambda>c. - score_of c) scored
           in if exploration_mode = asc ''greedy'' then Inr (hd sorted_candidates)
              else if exploration_mode = asc ''balanced''
              then (if uniform rnd < fl (7 / 10) then Inr (hd sorted_candidates)
                    else if length sorted_candidates > 1
                    then Inr (tl sorted_candidates !
                                (choice_index rnd mod length (tl sorted_candidates)))
                    else Inr (hd sorted_candidates))
              else weighted_choice fl (weighted rnd) sorted_candidates
                     (map score_of sorted_candidates)))"

subsection \<open>Strict re-query, fuzzy matching and the last resort\<close>

text \<open>\<open>simple_similarity\<close>: the share of the characters of the shorter string that
  occur in the longer one, a quotient of two \<open>int\<close>s rounded to a float.\<close>

definition simple_similarity :: "(rat \<Rightarrow> rat) \<Rightarrow> pystr \<Rightarrow> pystr \<Rightarrow> rat" where
  "simple_similarity fl s1 s2 =
     (let a = py_lower s1; b = py_lower s2;
          short = (if length a > length b then b else a);
          long = (if length a > length b then a else b);
          common = length (filter (\<lambda>c. c \<in> set long) short)
      in fl (of_nat common / of_nat (max (length short) (length long))))"

definition best_similar :: "(rat \<Rightarrow> rat) \<Rightarrow> pystr \<Rightarrow> pystr list \<Rightarrow> pystr option" where
  "best_similar fl invalid_name valid_tools =
     fst (fold (\<lambda>tool best.
                  let score = simple_similarity fl invalid_name tool
                  in if score > snd best \<and> score > fl (6 / 10) then (Some tool, score)
                     else best)
            valid_tools (None, 0))"

definition fuzzy_match_tool_name ::
  "(rat \<Rightarrow> rat) \<Rightarrow> pystr \<Rightarrow> pystr list \<Rightarrow> pystr option" where
  "fuzzy_match_tool_name fl invalid_name valid_tools =
     (if invalid_name = [] \<or> valid_tools = [] then None
      else let invalid_lower = py_strip (py_lower invalid_name)
           in case find (\<lambda>tool. py_lower tool = invalid_lower) valid_tools of
                Some tool \<Rightarrow> Some tool
              | None \<Rightarrow>
                  (case find (\<lambda>tool. contains invalid_lower (py_lower tool) \<or>
                                     contains (py_lower tool) invalid_lower) valid_tools of
                     Some tool \<Rightarrow> Some tool
                   | None \<Rightarrow> best_similar fl invalid_name valid_tools))"

text \<open>
  \<open>_try_tool_name_correction\<close>: the strict re-query and, on an invalid name, the fuzzy
  match.  Every exception inside is caught and gives \<open>None\<close>; a name that is no string
  has no \<open>lower\<close>.
\<close>

definition try_tool_name_correction ::
  "(rat \<Rightarrow> rat) \<Rightarrow> tool_manager \<Rightarrow> llm_reply \<Rightarrow> json option" where
  "try_tool_name_correction fl tm strict_reply =
     (let all_tools = get_all_tool_names tm
      in case strict_reply of
           CallFails \<Rightarrow> None
         | Reply candidate \<Rightarrow>
             (case candidate_name candidate of
                Inl e \<Rightarrow> None
              | Inr None \<Rightarrow> None
              | Inr (Some name) \<Rightarrow>
                  (case is_valid_tool_any tm name of
                     Inl e \<Rightarrow> None
                   | Inr True \<Rightarrow> Some candidate
                   | Inr False \<Rightarrow>
                       (case name of
                          JStr s \<Rightarrow>
                            (case fuzzy_match_tool_name fl s all_tools of
                               None \<Rightarrow> None
                             | Some corrected_name \<Rightarrow>
                                 if corrected_name \<noteq> []
                                 then (case candidate_set candidate (asc ''tool_name'')
                                              (JStr corrected_name) of
                                         Inl e \<Rightarrow> None
                                       | Inr candidate' \<Rightarrow> Some candidate')
                                 else None)
                        | _ \<Rightarrow> None))))"

text \<open>\<open>a or b\<close> on two values.\<close>

definition py_or :: "json \<Rightarrow> json \<Rightarrow> json" where
  "py_or a b = (if truthy a then a else b)"

definition dict_get :: "pydict \<Rightarrow> pystr \<Rightarrow> json" where
  "dict_get d key = (case map_of d key of None \<Rightarrow> JNull | Some v \<Rightarrow> v)"

definition fallback_reasoning :: "int \<Rightarrow> pystr" where
  "fallback_reasoning n =
     [0x5907, 0x7528, 0x5DE5, 0x5177, 0x9009, 0x62E9, 0xFF08, 0x524D] @ str_of_int n @
     [0x6B65, 0x9009, 0x62E9, 0x9047, 0x5230, 0x95EE, 0x9898, 0xFF09]"

definition select_fallback_name :: "pystr list \<Rightarrow> state_manager \<Rightarrow> error + pystr" where
  "select_fallback_name all_tools state =
     (if step_count state = 0
      then (let query_tools =
                  filter (\<lambda>t. contains (asc ''query'') (py_lower t) \<or>
                              contains (asc ''get'') (py_lower t) \<or>
                              contains (asc ''show'') (py_lower t)) all_tools
            in if query_tools \<noteq> [] then Inr (hd query_tools) else Inr (hd all_tools))
      else (let unused_tools =
                  filter (\<lambda>t. t \<notin> fst ` set (tool_usage_count state)) all_tools
            in if unused_tools \<noteq> [] then Inr (hd unused_tools)
               else if tool_usage_count state = [] then Inl ValueError
               else (let min_usage = Min (set (map snd (tool_usage_count state)));
                         least_used = map fst (filter (\<lambda>tc. snd tc = min_usage)
                                                 (tool_usage_count state))
                     in case least_used of [] \<Rightarrow> Inl IndexError | t # _ \<Rightarrow> Inr t)))"

definition select_fallback_tool :: "tool_manager \<Rightarrow> state_manager \<Rightarrow> pydict \<Rightarrow> error + json" where
  "select_fallback_tool tm state goal =
     (let all_tools = get_all_tool_names tm
      in if all_tools = []
         then Inr (JDict [(asc ''error'', JStr [0x6CA1, 0x6709, 0x53EF, 0x7528, 0x5DE5, 0x5177])])
         else case select_fallback_name all_tools state of
           Inl e \<Rightarrow> Inl e
         | Inr selected_tool \<Rightarrow>
             (case goal_mapping goal (asc ''context_params'') of
                Inl e \<Rightarrow> Inl e
              | Inr context_params \<Rightarrow>
                  (case goal_mapping goal (asc ''entities'') of
                     Inl e \<Rightarrow> Inl e
                   | Inr entities \<Rightarrow>
                       (let all_params = merge_dicts context_params entities;
                            request1 =
                              (if map_of all_params (asc ''device'') \<noteq> None \<or>
                                  map_of all_params (asc ''device_name'') \<noteq> None
                               then [(asc ''device_name'',
                                      py_or (dict_get all_params (asc ''device_name''))
                                        (dict_get all_params (asc ''device'')))]
                               else []);
                            tool_request =
                              (if map_of all_params (asc ''interface'') \<noteq> None \<or>
                                  map_of all_params (asc ''interface_name'') \<noteq> None
                               then request1 @
                                    [(asc ''interface_name'',
                                      py_or (dict_get all_params (asc ''interface_name''))
                                        (dict_get all_params (asc ''interface'')))]
                               else request1)
                        in Inr (JDict
                             [(asc ''tool_name'', JStr selected_tool),
                              (asc ''tool_request'', JDict tool_request),
                              (asc ''reasoning'', JStr (fallback_reasoning (step_count state))),
                              (asc ''expected_outcome'',
                                 JStr [0x83B7, 0x53D6, 0x57FA, 0x7840, 0x4FE1, 0x606F]),
                              (asc ''next_focus'',
                                 JStr [0x6839, 0x636E, 0x7ED3, 0x679C, 0x51B3, 0x5B9A, 0x4E0B,
                                       0x4E00, 0x6B65])])))))"

subsection \<open>select\_next\_tool\<close>

text \<open>\<open>', '.join(x)\<close> raises unless \<open>x\<close> yields strings only.\<close>

definition join_raises :: "json \<Rightarrow> bool" where
  "join_raises x =
     (case x of
        JList xs \<Rightarrow> list_ex (\<lambda>v. case v of JStr s \<Rightarrow> False | _ \<Rightarrow> True) xs
      | JStr s \<Rightarrow> False
      | JDict d \<Rightarrow> False
      | _ \<Rightarrow> True)"

text \<open>
  \<open>_generate_planning_prompt\<close>.  The prompt text goes to the collaborator only, whose
  replies the model takes as given; what the model keeps of the function is whether it
  raises, and which exception comes first.
\<close>

definition generate_planning_prompt ::
  "(json \<Rightarrow> pystr) \<Rightarrow> (pystr list \<Rightarrow> pystr list) \<Rightarrow> state_manager \<Rightarrow> pydict \<Rightarrow>
   (pystr \<times> json list) list option \<Rightarrow> error option" where
  "generate_planning_prompt repr ord state goal known_ents =
     (let context_params = dict_get goal (asc ''context_params'')
      in if map_of goal (asc ''context_params'') \<noteq> None \<and> truthy context_params \<and>
            (case context_params of JDict d \<Rightarrow> False | _ \<Rightarrow> True)
         then Some AttributeError
         else if (case known_ents of
                    None \<Rightarrow> False
                  | Some ke \<Rightarrow> list_ex (\<lambda>te. snd te \<noteq> [] \<and> join_raises (JList (snd te))) ke)
         then Some TypeError
         else case extract_known_parameters repr ord state goal of
                Inl e \<Rightarrow> Some e
              | Inr known \<Rightarrow>
                  if map_of goal (asc ''key_aspects'') \<noteq> None \<and>
                     join_raises (dict_get goal (asc ''key_aspects''))
                  then Some TypeError else None)"

text \<open>\<open>_validate_and_fix_parameters\<close> on what was selected.\<close>

definition validate_selected ::
  "(json \<Rightarrow> pystr) \<Rightarrow> (pystr list \<Rightarrow> pystr list) \<Rightarrow> json \<Rightarrow> state_manager \<Rightarrow> pydict \<Rightarrow>
   error + json" where
  "validate_selected repr ord selected state goal =
     (case selected of
        JDict plan \<Rightarrow>
          (case validate_and_fix_parameters repr ord plan state goal of
             Inl e \<Rightarrow> Inl e
           | Inr plan' \<Rightarrow> Inr (JDict plan'))
      | _ \<Rightarrow> Inl AttributeError)"

text \<open>\<open>'tool_name' in selected and self.tool_manager.is_valid_tool(selected['tool_name'])\<close>.\<close>

definition selected_is_valid :: "tool_manager \<Rightarrow> json \<Rightarrow> error + bool" where
  "selected_is_valid tm selected =
     (case selected of
        JDict d \<Rightarrow>
          (case map_of d (asc ''tool_name'') of
             None \<Rightarrow> Inr False
           | Some name \<Rightarrow> is_valid_tool_any tm name)
      | _ \<Rightarrow> Inl TypeError)"

text \<open>
  The retry loop: \<open>llm retry i\<close> is the reply to call \<open>i\<close> of attempt \<open>retry\<close>, \<open>rnd
  retry\<close> the random draws of that attempt.  \<open>None\<close>: every attempt failed.
\<close>

fun retry_loop ::
  "(json \<Rightarrow> pystr) \<Rightarrow> (pystr list \<Rightarrow> pystr list) \<Rightarrow> (rat \<Rightarrow> rat) \<Rightarrow> tool_manager \<Rightarrow> pystr \<Rightarrow>
   (nat \<Rightarrow> nat \<Rightarrow> llm_reply) \<Rightarrow> (nat \<Rightarrow> draws) \<Rightarrow> state_manager \<Rightarrow> pydict \<Rightarrow> nat list \<Rightarrow>
   (error + json) option" where
  "retry_loop repr ord fl tm exploration_mode llm rnd state goal [] = None"
| "retry_loop repr ord fl tm exploration_mode llm rnd state goal (retry # rest) =
     (let candidates = get_tool_candidates tm (llm retry)
      in if candidates \<noteq> []
         then (case apply_exploration_strategy fl exploration_mode (rnd retry) candidates
                      state of
                 Inl e \<Rightarrow> Some (Inl e)
               | Inr selected \<Rightarrow>
                   (case selected_is_valid tm selected of
                      Inl e \<Rightarrow> Some (Inl e)
                    | Inr True \<Rightarrow> Some (validate_selected repr ord selected state goal)
                    | Inr False \<Rightarrow>
                        retry_loop repr ord fl tm exploration_mode llm rnd state goal rest))
         else retry_loop repr ord fl tm exploration_mode llm rnd state goal rest)"

definition select_next_tool ::
  "(json \<Rightarrow> pystr) \<Rightarrow> (pystr list \<Rightarrow> pystr list) \<Rightarrow> (rat \<Rightarrow> rat) \<Rightarrow> tool_manager \<Rightarrow> pystr \<Rightarrow>
   (nat \<Rightarrow> nat \<Rightarrow> llm_reply) \<Rightarrow> llm_reply \<Rightarrow> (nat \<Rightarrow> draws) \<Rightarrow> state_manager \<Rightarrow> pydict \<Rightarrow>
   (pystr \<times> json list) list option \<Rightarrow> error + json" where
  "select_next_tool repr ord fl tm exploration_mode llm strict_reply rnd state goal
     known_ents =
     (case generate_planning_prompt repr ord state goal known_ents of
        Some e \<Rightarrow> Inl e
      | None \<Rightarrow>
          (case retry_loop repr ord fl tm exploration_mode llm rnd state goal [0, 1, 2] of
             Some r \<Rightarrow> r
           | None \<Rightarrow>
               (case try_tool_name_correction fl tm strict_reply of
                  Some corrected_tool \<Rightarrow> validate_selected repr ord corrected_tool state goal
                | None \<Rightarrow>
                    (case select_fallback_tool tm state goal of
                       Inl e \<Rightarrow> Inl e
                     | Inr fallback \<Rightarrow> validate_selected repr ord fallback state goal))))"

text \<open>What the loop of \<open>generate\<close> tests on the plan: \<open>'error' in plan\<close>.\<close>

definition plan_has_error :: "json \<Rightarrow> bool" where
  "plan_has_error plan =
     (case plan of JDict d \<Rightarrow> map_of d (asc ''error'') \<noteq> None | _ \<Rightarrow> False)"

definition has_score :: "json \<Rightarrow> bool" where
  "has_score c = (case c of JDict d \<Rightarrow> map_of d (asc ''score'') \<noteq> None | _ \<Rightarrow> False)"

definition tool_name_of :: "json \<Rightarrow> pystr option" where
  "tool_name_of c =
     (case c of
        JDict d \<Rightarrow> (case map_of d (asc ''tool_name'') of Some (JStr s) \<Rightarrow> Some s | _ \<Rightarrow> None)
      | _ \<Rightarrow> None)"

definition replies_of :: "llm_reply list \<Rightarrow> nat \<Rightarrow> llm_reply" where
  "replies_of rs i = (if i < length rs then rs ! i else CallFails)"

text \<open>A catalog with one tool and a candidate naming it.\<close>

definition example_catalog :: tool_manager where
  "example_catalog = \<lparr> tools = [(asc ''query_interface_info'', [])], tool_parameters = [] \<rparr>"

definition example_candidate :: json where
  "example_candidate = JDict [(asc ''tool_name'', JStr (asc ''query_interface_info''))]"

text \<open>The placeholder argument of the repair scenario, as code points, and a plan
  that carries it.\<close>

definition placeholder_device :: pystr where
  "placeholder_device = [0x8BBE, 0x5907]"

definition repaired_request :: "error + pydict \<Rightarrow> json option" where
  "repaired_request r = (case r of Inl e \<Rightarrow> None | Inr plan \<Rightarrow> map_of plan (asc ''tool_request''))"

definition example_plan :: pydict where
  "example_plan = [(asc ''tool_name'', JStr (asc ''query_device_info'')),
                   (asc ''tool_request'', JDict [(asc ''device_name'', JStr placeholder_device)])]"

text \<open>A candidate with a valid tool name whose \<open>tool_request\<close> is \<open>null\<close>, and
  draws that are never read in greedy mode.\<close>

definition null_request_candidate :: json where
  "null_request_candidate =
     JDict [(asc ''tool_name'', JStr (asc ''query_interface_info'')),
            (asc ''tool_request'', JNull)]"

definition no_draws :: draws where
  "no_draws = \<lparr> uniform = 0, choice_index = 0, weighted = 0 \<rparr>"

text \<open>
  A candidate as the prompt asks for it: its \<open>tool_request\<close>, when present, is an object,
  and it has no \<open>error\<close> field.  A good plan names a valid tool and has no \<open>error\<close>
  field, so the loop of \<open>generate\<close> goes on with it.
\<close>

definition well_formed_candidate :: "json \<Rightarrow> bool" where
  "well_formed_candidate c =
     (case c of
        JDict d \<Rightarrow>
          (case map_of d (asc ''tool_request'') of
             None \<Rightarrow> True | Some (JDict r) \<Rightarrow> True | Some _ \<Rightarrow> False) \<and>
          map_of d (asc ''error'') = None
      | _ \<Rightarrow> True)"

definition good_plan :: "tool_manager \<Rightarrow> json \<Rightarrow> bool" where
  "good_plan tm p =
     (case p of
        JDict plan \<Rightarrow>
          map_of plan (asc ''error'') = None \<and>
          (case map_of plan (asc ''tool_name'') of
             Some (JStr n) \<Rightarrow> is_valid_tool tm n | _ \<Rightarrow> False)
      | _ \<Rightarrow> False)"

text \<open>A candidate and the same candidate once the scoring loop has given it a
  score of at least one.\<close>

definition scored_from :: "json \<Rightarrow> json \<Rightarrow> bool" where
  "scored_from c c' =
     (\<exists>d v. c = JDict d \<and> c' = JDict (AList.update (asc ''score'') (JNum v) d) \<and> v \<ge> 1)"

text \<open>The severities the docstring of \<open>add_finding\<close> names.\<close>

definition valid_severity :: "pystr \<Rightarrow> bool" where
  "valid_severity sv = (sv \<in> set [asc ''low'', asc ''medium'', asc ''high''])"

text \<open>Observers of the result of a pass.\<close>

definition severities_after ::
  "error + state_manager \<times> output_generator \<Rightarrow> pystr list" where
  "severities_after r =
     (case r of Inl e \<Rightarrow> [] | Inr (s, g) \<Rightarrow> map fd_severity (findings s))"

definition step_counts ::
  "error + state_manager \<times> output_generator \<Rightarrow> (nat \<times> nat) option" where
  "step_counts r =
     (case r of
        Inl e \<Rightarrow> None
      | Inr (s, g) \<Rightarrow> Some (length (executed_tools s), length (current_coa g)))"

text \<open>The rationale text of the batch scenario, as code points.\<close>

definition fan_out_cue :: pystr where
  "fan_out_cue = [0x9010, 0x4E00, 0x68C0, 0x67E5, 0x6BCF, 0x4E2A, 0x63A5, 0x53E3]"

section \<open>Properties of the session state\<close>

lemma asc_simps: "asc [] = []" "asc (c # cs) = of_char c # asc cs"
  by (simp_all add: asc_def)

lemma add_execution_sizes:
  "add_execution n rq rs why s = Inr s' \<Longrightarrow>
     step_count s' = step_count s + 1 \<and>
     length (executed_tools s') = length (executed_tools s) + 1 \<and>
     diagnostic_chain s' = diagnostic_chain s"
  by (auto simp: add_execution_def Let_def split: sum.splits)

lemma update_chain_sizes:
  "step_count (update_diagnostic_chain a r c nf s) = step_count s \<and>
   executed_tools (update_diagnostic_chain a r c nf s) = executed_tools s \<and>
   length (diagnostic_chain (update_diagnostic_chain a r c nf s)) =
     length (diagnostic_chain s) + 1"
  by (simp add: update_diagnostic_chain_def Let_def)

lemma run_calls_sizes:
  "run_calls cs s = Inr s' \<Longrightarrow>
     step_count s' = step_count s + int (length (filter is_record_action cs)) \<and>
     length (executed_tools s') =
       length (executed_tools s) + length (filter is_record_action cs) \<and>
     length (diagnostic_chain s') =
       length (diagnostic_chain s) + length (filter (\<lambda>c. \<not> is_record_action c) cs)"
proof (induction cs arbitrary: s)
  case Nil
  then show ?case by simp
next
  case (Cons c cs)
  then obtain s1 where s1: "run_call c s = Inr s1" and rest: "run_calls cs s1 = Inr s'"
    by (auto split: sum.splits)
  note IH = Cons.IH[OF rest]
  show ?case
  proof (cases c)
    case (RecordAction n rq rs why)
    with s1 have "add_execution n rq rs why s = Inr s1" by simp
    from add_execution_sizes[OF this] IH RecordAction show ?thesis by simp
  next
    case (UpdateChain a r c' nf)
    with s1 have "s1 = update_diagnostic_chain a r c' nf s" by simp
    with update_chain_sizes[of a r c' nf s] IH UpdateChain show ?thesis by simp
  qed
qed

text \<open>
  Claim C1, as the code has it.  On a fresh session, after any sequence of
  \<open>add_execution\<close> and \<open>update_diagnostic_chain\<close> calls that completes, \<open>step_count\<close>
  and \<open>len(executed_tools)\<close> both equal the number of \<open>add_execution\<close> calls, and
  \<open>len(diagnostic_chain)\<close> equals the number of \<open>update_diagnostic_chain\<close> calls: the
  three agree exactly when the sequence holds as many calls of one kind as of the other.
\<close>

theorem session_sizes_count_calls:
  assumes "run_calls cs init_state = Inr s'"
  shows "session_sizes s' =
           (int (length (filter is_record_action cs)),
            length (filter is_record_action cs),
            length (filter (\<lambda>c. \<not> is_record_action c) cs))"
  using run_calls_sizes[OF assms] by (simp add: session_sizes_def init_state_def)

theorem session_sizes_count_calls_witness:
  "run_calls [RecordAction (asc ''t'') (JDict []) (JDict []) [], UpdateChain [] [] [] JNull]
       init_state =
     Inr (projr (run_calls
       [RecordAction (asc ''t'') (JDict []) (JDict []) [], UpdateChain [] [] [] JNull]
       init_state)) \<and>
   session_sizes (projr (run_calls
       [RecordAction (asc ''t'') (JDict []) (JDict []) [], UpdateChain [] [] [] JNull]
       init_state)) = (1, 1, 1)"
proof -
  have h: "run_calls [RecordAction (asc ''t'') (JDict []) (JDict []) [], UpdateChain [] [] [] JNull]
       init_state =
     Inr (projr (run_calls
       [RecordAction (asc ''t'') (JDict []) (JDict []) [], UpdateChain [] [] [] JNull]
       init_state))"
    by (simp add: add_execution_def extract_observations_def Let_def)
  show ?thesis using h session_sizes_count_calls[OF h] by simp
qed

text \<open>
  Claim C1 as stated fails: one \<open>add_execution\<close> call on a fresh session, with no
  \<open>update_diagnostic_chain\<close> call, leaves \<open>step_count = 1\<close>, one executed tool and an
  empty diagnostic chain.
\<close>

theorem session_sizes_counterexample:
  "map_sum id session_sizes
     (run_calls [RecordAction (asc ''t'') (JDict []) (JDict []) []] init_state) =
   Inr (1, 1, 0)"
  by (simp add: add_execution_def extract_observations_def init_state_def
        session_sizes_def Let_def)

text \<open>
  Claim C2.  Whenever \<open>step_count \<ge> max_steps\<close>, \<open>should_continue\<close> returns \<open>False\<close>
  with the step-limit reason, whatever the findings and the rest of the state hold: the
  step-limit test comes first.
\<close>

theorem should_continue_step_limit:
  "step_count s \<ge> max_steps \<Longrightarrow> should_continue s max_steps = (False, msg_step_limit)"
  by (simp add: should_continue_def)

theorem should_continue_step_limit_witness:
  "step_count (init_state \<lparr> step_count := 5,
       findings := [\<lparr> fd_finding = [], fd_severity = asc ''high'', fd_step = 2 \<rparr>] \<rparr>) \<ge> 5 \<and>
   should_continue (init_state \<lparr> step_count := 5,
       findings := [\<lparr> fd_finding = [], fd_severity = asc ''high'', fd_step = 2 \<rparr>] \<rparr>) 5 =
     (False, msg_step_limit)"
  using should_continue_step_limit
    [of 5 "init_state \<lparr> step_count := 5,
       findings := [\<lparr> fd_finding = [], fd_severity = asc ''high'', fd_step = 2 \<rparr>] \<rparr>"]
  by simp

text \<open>
  Claim C9 fails on the code.  For an observation that is a list of objects,
  \<open>_extract_observations\<close> calls \<open>items\<close> on the list and \<open>add_execution\<close> raises
  \<open>AttributeError\<close>, where the claim says that the call never fails on a list.
\<close>

theorem add_execution_list_raises:
  "add_execution (asc ''query_all_device_interfaces'') (JDict [])
     (JList [JDict [(asc ''interface'', JStr (asc ''eth0''))],
             JDict [(asc ''interface'', JStr (asc ''eth1''))]])
     [] init_state = Inl AttributeError"
  by (simp add: add_execution_def extract_observations_def Let_def)

text \<open>
  For an observation that is a dict (an error-tagged dict included) the call completes:
  it increments \<open>step_count\<close>, appends the record, increments the usage count of the tool
  name, writes the fields of the observation whose key does not start with an underscore
  into \<open>observations\<close>, and leaves findings, chain, focus and excluded causes alone.
\<close>

lemma add_execution_dict_completes:
  "\<exists>s'. add_execution n rq (JDict d) why s = Inr s' \<and>
        step_count s' = step_count s + 1 \<and>
        executed_tools s' = executed_tools s @
          [\<lparr> ex_step = step_count s + 1, ex_tool_name = n, ex_tool_request = rq,
             ex_tool_response = JDict d, ex_reasoning = why \<rparr>] \<and>
        get_tool_usage_count s' n = get_tool_usage_count s n + 1 \<and>
        (\<forall>m. m \<noteq> n \<longrightarrow> get_tool_usage_count s' m = get_tool_usage_count s m) \<and>
        observations s' =
          fold (\<lambda>(key, value) acc.
                  if \<not> startswith key (asc ''_'')
                  then AList.update (n @ asc ''_'' @ key) value acc
                  else acc) d (observations s) \<and>
        findings s' = findings s \<and> diagnostic_chain s' = diagnostic_chain s \<and>
        current_focus s' = current_focus s \<and> excluded_causes s' = excluded_causes s"
  by (simp add: add_execution_def extract_observations_def Let_def
        get_tool_usage_count_def update_conv')

text \<open>
  Claim C10.  \<open>is_valid_tool\<close> accepts the names \<open>finish_diagnosis\<close> and \<open>finish\<close> for
  every tool manager, whatever its catalog lists.
\<close>

theorem is_valid_tool_finish:
  "is_valid_tool tm (asc ''finish_diagnosis'') \<and> is_valid_tool tm (asc ''finish'')"
  by (simp add: is_valid_tool_def)

theorem is_valid_tool_finish_witness:
  "is_valid_tool \<lparr> tools = [], tool_parameters = [] \<rparr> (asc ''finish_diagnosis'') \<and>
   is_valid_tool \<lparr> tools = [], tool_parameters = [] \<rparr> (asc ''finish'')"
  using is_valid_tool_finish [of "\<lparr> tools = [], tool_parameters = [] \<rparr>"] by simp

section \<open>Properties of one pass of the loop\<close>

lemma startswith_iff: "startswith s p \<longleftrightarrow> (\<exists>suf. s = p @ suf)"
  by (induction s p rule: startswith.induct) auto

lemma contains_iff: "contains p s \<longleftrightarrow> (\<exists>pre suf. s = pre @ p @ suf)"
proof (induction s)
  case Nil
  then show ?case by auto
next
  case (Cons c cs)
  show ?case
  proof
    assume "contains p (c # cs)"
    then consider "startswith (c # cs) p" | "contains p cs" by auto
    then show "\<exists>pre suf. c # cs = pre @ p @ suf"
    proof cases
      case 1
      then obtain suf where "c # cs = p @ suf" by (auto simp: startswith_iff)
      then have "c # cs = [] @ p @ suf" by simp
      then show ?thesis by blast
    next
      case 2
      with Cons.IH obtain pre suf where "cs = pre @ p @ suf" by auto
      then have "c # cs = (c # pre) @ p @ suf" by simp
      then show ?thesis by blast
    qed
  next
    assume "\<exists>pre suf. c # cs = pre @ p @ suf"
    then obtain pre suf where eq: "c # cs = pre @ p @ suf" by auto
    show "contains p (c # cs)"
    proof (cases pre)
      case Nil
      with eq have "startswith (c # cs) p" by (auto simp: startswith_iff)
      then show ?thesis by simp
    next
      case (Cons a pre')
      with eq have "cs = pre' @ p @ suf" by simp
      with Cons.IH have "contains p cs" by blast
      then show ?thesis by simp
    qed
  qed
qed

lemma contains_append_left: "contains (p @ q) s \<Longrightarrow> contains p s"
  unfolding contains_iff by (metis append.assoc)

lemma cue_batch: "contains fan_out_cue reasoning \<Longrightarrow> length es > 1 \<Longrightarrow> should_batch_execute reasoning es"
proof -
  assume a: "contains fan_out_cue reasoning" and l: "length es > 1"
  have "fan_out_cue = [0x9010, 0x4E00] @ [0x68C0, 0x67E5, 0x6BCF, 0x4E2A, 0x63A5, 0x53E3]"
    by (simp add: fan_out_cue_def)
  with a have "contains [0x9010, 0x4E00] reasoning" using contains_append_left by metis
  with l show ?thesis by (simp add: should_batch_execute_def batch_keywords_def)
qed



lemma start_step_known [simp]: "known_entities (start_step r og) = known_entities og"
  by (simp add: start_step_def)

lemma get_known_start_step [simp]:
  "get_known_entities (start_step r og) t = get_known_entities og t"
  by (simp add: get_known_entities_def)

lemma add_obs_after_start:
  "add_action_observation n a ob (og \<lparr> current_step := k, steps := xs @ [\<lparr> sd_key = k, sd_cot = r, sd_coa = coa \<rparr>] \<rparr>)
   = Inr (og \<lparr> current_step := k, steps := xs @ [\<lparr> sd_key = k, sd_cot = r, sd_coa = coa @ [\<lparr> ao_name = n, ao_args = a, ao_observation = ob \<rparr>] \<rparr>] \<rparr>)"
  by (simp add: add_action_observation_def)

lemma add_execution_dict_eq:
  "add_execution n rq (JDict d) why s =
     Inr (s \<lparr> step_count := step_count s + 1,
            executed_tools := executed_tools s @
              [\<lparr> ex_step = step_count s + 1, ex_tool_name = n, ex_tool_request = rq,
                 ex_tool_response = JDict d, ex_reasoning = why \<rparr>],
            tool_usage_count := AList.update n (get_tool_usage_count s n + 1) (tool_usage_count s),
            observations := fold (\<lambda>(key, value) acc.
                 if \<not> startswith key (asc ''_'')
                 then AList.update (n @ asc ''_'' @ key) value acc
                 else acc) d (observations s) \<rparr>)"
  by (simp add: add_execution_def extract_observations_def Let_def)

lemma record_outcome_sizes [simp]:
  "executed_tools (record_outcome repr n r nf resp s) = executed_tools s"
  "step_count (record_outcome repr n r nf resp s) = step_count s"
  by (simp_all add: record_outcome_def update_diagnostic_chain_def add_finding_def Let_def split: option.splits)

lemma abc_distinct: "asc ''a'' \<noteq> asc ''b''" "asc ''a'' \<noteq> asc ''c''"
  by (simp_all add: asc_def)

text \<open>
  Claim C6, as the code has it.  When the selected tool's name contains \<open>interface\<close>
  (the test the code makes, on the name and not on the arguments), the known interfaces are
  \<open>a\<close>, \<open>b\<close>, \<open>c\<close> and the rationale contains the cue, the pass executes the tool three
  times, with \<open>interface_name\<close> set to each identifier in turn, records one execution (the
  first) in the state and appends three observations to the output's current step.
\<close>

theorem batch_fan_out:
  assumes name: "contains (asc ''interface'') (py_lower tool_name)"
    and known: "get_known_entities og (asc ''interfaces'') =
                  [JStr (asc ''a''), JStr (asc ''b''), JStr (asc ''c'')]"
    and cue: "contains fan_out_cue reasoning"
  shows "\<exists>state' og'.
           run_step repr exec tool_name request reasoning next_focus (state, og) =
             Inr (state', og') \<and>
           step_count state' = step_count state + 1 \<and>
           executed_tools state' = executed_tools state @
             [\<lparr> ex_step = step_count state + 1, ex_tool_name = tool_name,
                ex_tool_request =
                  JDict (AList.update (asc ''interface_name'') (JStr (asc ''a'')) request),
                ex_tool_response = JDict (exec 0), ex_reasoning = reasoning \<rparr>] \<and>
           length (steps og') = length (steps og) + 1 \<and>
           current_coa og' =
             [\<lparr> ao_name = tool_name,
                ao_args = JDict (AList.update (asc ''interface_name'') (JStr (asc ''a'')) request),
                ao_observation = JDict (exec 0) \<rparr>,
              \<lparr> ao_name = tool_name,
                ao_args = JDict (AList.update (asc ''interface_name'') (JStr (asc ''b'')) request),
                ao_observation = JDict (exec 1) \<rparr>,
              \<lparr> ao_name = tool_name,
                ao_args = JDict (AList.update (asc ''interface_name'') (JStr (asc ''c'')) request),
                ao_observation = JDict (exec 2) \<rparr>]"
proof -
  let ?es = "[JStr (asc ''a''), JStr (asc ''b''), JStr (asc ''c'')]"
  have rel: "get_relevant_entities (start_step reasoning og) tool_name = ?es"
    using name known by (simp add: get_relevant_entities_def Let_def)
  have batch: "should_batch_execute reasoning ?es"
    using cue by (intro cue_batch) simp_all
  have upd: "\<And>e. update_tool_request_for_entity request e tool_name =
                 AList.update (asc ''interface_name'') e request"
    using name by (simp add: update_tool_request_for_entity_def Let_def)
  have loop: "batch_loop exec tool_name request reasoning (JStr (asc ''a'')) ?es 0
                (state, start_step reasoning og) =
              Inr (state \<lparr> step_count := step_count state + 1,
            executed_tools := executed_tools state @
              [\<lparr> ex_step = step_count state + 1, ex_tool_name = tool_name, ex_tool_request = JDict (AList.update (asc ''interface_name'') (JStr (asc ''a'')) request),
                 ex_tool_response = JDict (exec 0), ex_reasoning = reasoning \<rparr>],
            tool_usage_count := AList.update tool_name (get_tool_usage_count state tool_name + 1) (tool_usage_count state),
            observations := fold (\<lambda>(key, value) acc.
                 if \<not> startswith key (asc ''_'')
                 then AList.update (tool_name @ asc ''_'' @ key) value acc
                 else acc) (exec 0) (observations state) \<rparr>,
                 og \<lparr> current_step := current_step og + 1, steps := steps og @ [\<lparr> sd_key = current_step og + 1, sd_cot = reasoning, sd_coa = 
             [\<lparr> ao_name = tool_name,
                ao_args = JDict (AList.update (asc ''interface_name'') (JStr (asc ''a'')) request),
                ao_observation = JDict (exec 0) \<rparr>,
              \<lparr> ao_name = tool_name,
                ao_args = JDict (AList.update (asc ''interface_name'') (JStr (asc ''b'')) request),
                ao_observation = JDict (exec 1) \<rparr>,
              \<lparr> ao_name = tool_name,
                ao_args = JDict (AList.update (asc ''interface_name'') (JStr (asc ''c'')) request),
                ao_observation = JDict (exec 2) \<rparr>] \<rparr>] \<rparr>)"
    by (simp add: upd start_step_def add_obs_after_start add_execution_dict_eq abc_distinct Let_def
          numeral_2_eq_2)
  show ?thesis
    by (simp add: run_step_def rel batch Let_def loop current_coa_def del: batch_loop.simps)
qed


theorem batch_fan_out_witness:
  "step_counts (run_step (\<lambda>v. []) (\<lambda>i. []) (asc ''query_interface_info'') [] fan_out_cue JNull
     (init_state, init_generator \<lparr> known_entities :=
        [(asc ''interfaces'', [JStr (asc ''a''), JStr (asc ''b''), JStr (asc ''c'')])] \<rparr>)) =
   Some (1, 3)"
proof -
  have name: "contains (asc ''interface'') (py_lower (asc ''query_interface_info''))"
    by (simp add: asc_def py_lower_def lower_cps_def)
  have known: "get_known_entities (init_generator \<lparr> known_entities :=
        [(asc ''interfaces'', [JStr (asc ''a''), JStr (asc ''b''), JStr (asc ''c'')])] \<rparr>)
        (asc ''interfaces'') = [JStr (asc ''a''), JStr (asc ''b''), JStr (asc ''c'')]"
    by (simp add: get_known_entities_def)
  have cue: "contains fan_out_cue fan_out_cue"
    by (simp add: fan_out_cue_def)
  show ?thesis
    using batch_fan_out [OF name known cue, of "\<lambda>v. []" "\<lambda>i. []" "[]" JNull init_state]
    by (auto simp: step_counts_def init_state_def)
qed

text \<open>
  Claim C6 as stated fails: an action that takes an interface argument
  (\<open>interface_name\<close>) but whose name holds neither \<open>interface\<close> nor \<open>device\<close> is executed
  once, with three known interfaces and the cue in the rationale.
\<close>

theorem batch_fan_out_counterexample:
  "step_counts (run_step (\<lambda>v. []) (\<lambda>i. []) (asc ''query_port_status'')
     [(asc ''interface_name'', JStr (asc ''x''))] fan_out_cue JNull
     (init_state, init_generator \<lparr> known_entities :=
        [(asc ''interfaces'', [JStr (asc ''a''), JStr (asc ''b''), JStr (asc ''c'')])] \<rparr>)) =
   Some (1, 1)"
  by (simp add: step_counts_def run_step_def start_step_def init_generator_def
     get_relevant_entities_def get_known_entities_def Let_def asc_def py_lower_def lower_cps_def
     add_action_observation_def add_execution_def extract_observations_def init_state_def
     record_outcome_def analyze_tool_response_def update_diagnostic_chain_def
     discover_entities_def current_coa_def extract_entities_from_observation_def
     entity_keys_def)

lemma get_known_update:
  "get_known_entities (update_known_entities t es og) u =
     (if u = t then es else get_known_entities og u)"
  by (simp add: get_known_entities_def update_known_entities_def update_conv')

lemma discover_keeps_nonempty:
  "get_known_entities og u \<noteq> [] \<Longrightarrow> get_known_entities (discover_entities resp og) u \<noteq> []"
  by (auto simp: discover_entities_def Let_def get_known_update)

text \<open>
  Claim C7, as the code has it.  \<open>update_known_entities\<close> replaces the list known for
  the entity type by the new list and leaves the other types alone; the loop calls it only
  with a non-empty list, so a type whose list is non-empty keeps a non-empty list, but the
  list is the latest discovery, not the union with the earlier ones.
\<close>

theorem known_entities_replaced:
  "get_known_entities (update_known_entities t es og) t = es \<and>
   (\<forall>u. u \<noteq> t \<longrightarrow>
        get_known_entities (update_known_entities t es og) u = get_known_entities og u) \<and>
   (\<forall>u. get_known_entities og u \<noteq> [] \<longrightarrow>
        get_known_entities (discover_entities resp og) u \<noteq> []) \<and>
   (extract_entities_from_observation resp (asc ''interface'') \<noteq> [] \<longrightarrow>
      get_known_entities (discover_entities resp og) (asc ''interfaces'') =
        extract_entities_from_observation resp (asc ''interface''))"
  by (auto simp: get_known_update discover_keeps_nonempty discover_entities_def Let_def
        extract_entities_from_observation_def asc_def)

theorem known_entities_replaced_witness:
  "get_known_entities
     (discover_entities (JDict [(asc ''interface'', JStr (asc ''b''))])
        (update_known_entities (asc ''interfaces'') [JStr (asc ''a'')] init_generator))
     (asc ''interfaces'') = [JStr (asc ''b'')]"
  using known_entities_replaced[of "asc ''interfaces''" "[JStr (asc ''a'')]"
     "update_known_entities (asc ''interfaces'') [JStr (asc ''a'')] init_generator"
     "JDict [(asc ''interface'', JStr (asc ''b''))]"]
  by (simp add: extract_entities_from_observation_def entity_keys_def asc_def)

text \<open>
  Claim C7 as stated fails: after an observation naming interface \<open>a\<close> and then one
  naming interface \<open>b\<close>, the known interfaces are \<open>b\<close> alone.
\<close>

theorem known_entities_counterexample:
  "get_known_entities
     (discover_entities (JDict [(asc ''interface'', JStr (asc ''b''))])
        (discover_entities (JDict [(asc ''interface'', JStr (asc ''a''))]) init_generator))
     (asc ''interfaces'') = [JStr (asc ''b'')]"
  by (simp add: discover_entities_def extract_entities_from_observation_def entity_keys_def
        Let_def get_known_update asc_def)

lemma analysis_content_not_severity:
  "analyze_tool_response repr n r = Some f \<Longrightarrow> \<not> valid_severity (an_content f)"
  by (auto simp: analyze_tool_response_def valid_severity_def content_down_def content_errors_def
       content_normal_def content_records_def asc_def split: if_splits json.splits)

text \<open>
  Claim C5 fails on the code.  The loop calls \<open>add_finding(finding['type'],
  finding['content'])\<close>: the content text lands in the severity field.  For an observation
  with \<open>status = down\<close> the stored severity is the message \<open>content_down\<close>, which is none
  of \<open>low\<close>, \<open>medium\<close>, \<open>high\<close>.
\<close>

theorem loop_finding_severity_is_content:
  "severities_after (run_step (\<lambda>v. []) (\<lambda>i. [(asc ''status'', JStr (asc ''down''))])
       (asc ''query_port'') [] [] JNull (init_state, init_generator)) = [content_down] \<and>
   \<not> valid_severity content_down"
  by (simp add: severities_after_def run_step_def start_step_def init_generator_def
     get_relevant_entities_def get_known_entities_def Let_def asc_def py_lower_def lower_cps_def
     add_action_observation_def add_execution_def extract_observations_def init_state_def
     record_outcome_def analyze_tool_response_def dict_get_eq_def add_finding_def
     update_diagnostic_chain_def valid_severity_def content_down_def discover_entities_def)

section \<open>Properties of the planner\<close>

lemma bitlen_small: "bitlen 1 = 1" "bitlen 2 = 2" "bitlen 3 = 2" "bitlen 4 = 3" "bitlen 5 = 3"
  by code_simp+

lemma round_half_even_int: "round_half_even (of_int n) = n"
  by (simp add: round_half_even_def)

lemma ulp_pos: "ulp a > 0"
  by (simp add: ulp_def)

lemma binary64_exact:
  assumes "\<bar>x\<bar> = of_int n * ulp \<bar>x\<bar>"
  shows "binary64 x = x"
proof (cases "x = 0")
  case True
  then show ?thesis by (simp add: binary64_def)
next
  case False
  have "\<bar>x\<bar> / ulp \<bar>x\<bar> = of_int n"
    using assms ulp_pos[of "\<bar>x\<bar>"] by (simp add: field_simps)
  then have "binary64 x = sgn x * (of_int n * ulp \<bar>x\<bar>)"
    using False by (simp add: binary64_def round_half_even_int)
  also have "\<dots> = sgn x * \<bar>x\<bar>" using assms by simp
  also have "\<dots> = x" by (simp add: sgn_mult_abs)
  finally show ?thesis .
qed

lemma binade_small: "binade 1 = 0" "binade 2 = 1" "binade 3 = 1" "binade 4 = 2" "binade 5 = 2"
  by (simp_all add: binade_def bitlen_small Let_def)

lemma ulp_small:
  "ulp 1 = 1 / 2 ^ 52" "ulp 2 = 1 / 2 ^ 51" "ulp 3 = 1 / 2 ^ 51" "ulp 4 = 1 / 2 ^ 50"
  "ulp 5 = 1 / 2 ^ 50"
  by (simp_all add: ulp_def binade_small power_int_def field_simps)

lemma binary64_small:
  "binary64 1 = 1" "binary64 2 = 2" "binary64 3 = 3" "binary64 4 = 4" "binary64 5 = 5"
proof -
  show "binary64 1 = 1" by (rule binary64_exact[of _ "2 ^ 52"]) (simp add: ulp_small)
  show "binary64 2 = 2" by (rule binary64_exact[of _ "2 * 2 ^ 51"]) (simp add: ulp_small)
  show "binary64 3 = 3" by (rule binary64_exact[of _ "3 * 2 ^ 51"]) (simp add: ulp_small)
  show "binary64 4 = 4" by (rule binary64_exact[of _ "4 * 2 ^ 50"]) (simp add: ulp_small)
  show "binary64 5 = 5" by (rule binary64_exact[of _ "5 * 2 ^ 50"]) (simp add: ulp_small)
qed

text \<open>
  Where the exact result is no float the rounding shows: \<open>2.0 / 3\<close> is
  \<open>0.6666666666666666\<close> and \<open>1 + 2.0 / 3\<close> is \<open>1.6666666666666665\<close> in Python, the
  two quotients below.
\<close>

lemma binary64_two_thirds: "binary64 (2 / 3) = 6004799503160661 / 9007199254740992"
  by code_simp

lemma binary64_score_example:
  "binary64 (binary64 (of_int 1) + binary64 (2 / binary64 (of_nat (2 + 1)))) =
     7505999378950826 / 4503599627370496"
  by code_simp

text \<open>The rounding keeps a number that is not negative not negative, and a number
  that is at least one at least one.\<close>

lemma round_half_even_ge:
  assumes "of_int k \<le> q"
  shows "k \<le> round_half_even q"
proof -
  have "k \<le> \<lfloor>q\<rfloor>" using assms by (simp add: le_floor_iff)
  then show ?thesis by (simp add: round_half_even_def Let_def)
qed

lemma binary64_nonneg: "0 \<le> x \<Longrightarrow> 0 \<le> binary64 x"
proof -
  assume x: "0 \<le> x"
  have "0 \<le> \<bar>x\<bar> / ulp \<bar>x\<bar>" using ulp_pos[of "\<bar>x\<bar>"] by simp
  then have "(of_int 0 :: rat) \<le> \<bar>x\<bar> / ulp \<bar>x\<bar>" by simp
  then have "0 \<le> round_half_even (\<bar>x\<bar> / ulp \<bar>x\<bar>)" by (rule round_half_even_ge)
  then show ?thesis using x ulp_pos[of "\<bar>x\<bar>"] by (simp add: binary64_def sgn_if)
qed

lemma binade_ge1:
  assumes "1 \<le> x"
  shows "0 \<le> binade x \<and> 2 powi (binade x) \<le> x"
proof -
  obtain p q where pq: "quotient_of x = (p, q)" by (cases "quotient_of x")
  then have q: "0 < q" and x: "x = of_int p / of_int q"
    using quotient_of_denom_pos[OF pq] quotient_of_div[OF pq] by simp_all
  have qp: "q \<le> p"
  proof -
    have "(of_int q :: rat) \<le> of_int p" using assms q unfolding x by (simp add: field_simps)
    then show ?thesis by simp
  qed
  then have p: "0 < p" using q by simp
  let ?d = "bitlen p - bitlen q"
  have "q < 2 ^ nat (bitlen p)" using bitlen_bounds[OF p] qp by simp
  then have "bitlen q \<le> bitlen p" by (simp add: bitlen_le_iff_power bitlen_nonneg)
  then have d0: "0 \<le> ?d" by simp
  have lo: "(2::rat) powi (?d - 1) \<le> x"
  proof -
    have a: "(2::int) ^ nat (bitlen p - 1) \<le> p" using bitlen_bounds[OF p] by simp
    have b: "q \<le> 2 ^ nat (bitlen q)" using bitlen_bounds[OF q] by simp
    have bp: "1 \<le> bitlen p" using p by (auto simp: bitlen_alt_def)
    have bq: "0 \<le> bitlen q" by (rule bitlen_nonneg)
    have a': "(2::rat) powi (bitlen p - 1) \<le> of_int p"
    proof -
      have "(of_int (2 ^ nat (bitlen p - 1)) :: rat) \<le> of_int p" using a by (simp only: of_int_le_iff)
      then show ?thesis using bp by (simp add: power_int_def)
    qed
    have b': "(of_int q :: rat) \<le> 2 powi (bitlen q)"
    proof -
      have "(of_int q :: rat) \<le> of_int (2 ^ nat (bitlen q))" using b by (simp only: of_int_le_iff)
      then show ?thesis using bq by (simp add: power_int_def)
    qed
    have "(2::rat) powi (?d - 1) = 2 powi (bitlen p - 1) / 2 powi (bitlen q)"
      by (simp add: power_int_diff)
    also have "\<dots> \<le> of_int p / 2 powi (bitlen q)"
      using a' by (simp add: divide_right_mono)
    also have "\<dots> \<le> of_int p / of_int q"
      using b' q p by (simp add: frac_le)
    finally show ?thesis unfolding x .
  qed
  show ?thesis
  proof (cases "(2::rat) powi ?d \<le> x")
    case True
    then have "binade x = ?d" by (simp add: binade_def pq)
    with True d0 show ?thesis by simp
  next
    case False
    then have b: "binade x = ?d - 1" by (simp add: binade_def pq)
    have "?d \<noteq> 0" using False assms by auto
    with d0 have "0 \<le> ?d - 1" by simp
    with lo b show ?thesis by simp
  qed
qed

lemma binary64_ge1:
  assumes "1 \<le> x"
  shows "1 \<le> binary64 x"
proof -
  from binade_ge1[OF assms] have b0: "0 \<le> binade x" and lo: "2 powi (binade x) \<le> x"
    by simp_all
  have ax: "\<bar>x\<bar> = x" using assms by simp
  have u: "ulp x = 2 powi (binade x - 52)" using b0 by (simp add: ulp_def max_def)
  have "(of_int (2 ^ 52) :: rat) = 2 powi (binade x) / ulp x"
    unfolding u by (simp add: power_int_diff)
  also have "\<dots> \<le> x / ulp x" using lo ulp_pos[of x] by (simp add: divide_right_mono)
  finally have "2 ^ 52 \<le> round_half_even (x / ulp x)" by (rule round_half_even_ge)
  then have "(of_int (2 ^ 52) :: rat) \<le> of_int (round_half_even (x / ulp x))"
    by (simp only: of_int_le_iff)
  then have "of_int (2 ^ 52) * ulp x \<le> of_int (round_half_even (x / ulp x)) * ulp x"
    using ulp_pos[of x] by (simp only: mult_le_cancel_right_pos)
  moreover have "of_int (2 ^ 52) * ulp x = 2 powi (binade x)"
    unfolding u by (simp add: power_int_diff)
  moreover have "(1::rat) \<le> 2 powi (binade x)" using b0 by (simp add: one_le_power_int)
  moreover have "binary64 x = of_int (round_half_even (x / ulp x)) * ulp x"
    using assms by (simp add: binary64_def ax sgn_if)
  ultimately show ?thesis by simp
qed

lemma py_eq_items_key:
  "py_eq_items d e \<Longrightarrow> map_of d k \<noteq> None \<Longrightarrow> map_of e k \<noteq> None"
  by (induction d) (auto split: option.splits if_splits)

lemma py_eq_has_score: "py_eq d c \<Longrightarrow> has_score d \<Longrightarrow> has_score c"
  by (cases d; cases c) (auto simp: has_score_def dest: py_eq_items_key)

lemma index_among_fresh:
  "\<forall>d \<in> set scored. has_score d \<Longrightarrow> \<not> has_score c \<Longrightarrow> index_among scored c = length scored"
  by (induction scored) (auto dest: py_eq_has_score)

lemma score_step:
  assumes "tool_name_of c = Some nm" "\<not> has_score c" "\<forall>d \<in> set scored. has_score d"
  shows "\<exists>c'. score_candidates fl state n scored (c # rest) = score_candidates fl state n (scored @ [c']) rest \<and>
           has_score c' \<and> tool_name_of c' = Some nm \<and>
           score_of c' = fl (fl (of_int (int n - int (length scored))) + fl (2 / fl (of_nat (get_tool_usage_count state nm + 1))))"
proof -
  from assms(1) obtain d where c: "c = JDict d" and nm: "map_of d (asc ''tool_name'') = Some (JStr nm)"
    by (auto simp: tool_name_of_def split: json.splits option.splits)
  have idx: "index_among scored c = length scored"
    using index_among_fresh assms by blast
  have ne: "asc ''tool_name'' \<noteq> asc ''score''" by (simp add: asc_def)
  let ?c' = "JDict (AList.update (asc ''score'')
      (JNum (fl (fl (of_int (int n - int (length scored))) +
             fl (2 / fl (of_nat (get_tool_usage_count state nm + 1)))))) d)"
  have "score_candidates fl state n scored (c # rest) =
          score_candidates fl state n (scored @ [?c']) rest"
    using c nm idx
    by (simp add: candidate_get_def usage_count_any_def candidate_set_def Let_def)
  moreover have "has_score ?c'" by (simp add: has_score_def update_conv')
  moreover have "tool_name_of ?c' = Some nm"
    using nm ne by (simp add: tool_name_of_def update_conv')
  moreover have "score_of ?c' = fl (fl (of_int (int n - int (length scored))) +
      fl (2 / fl (of_nat (get_tool_usage_count state nm + 1))))"
    by (simp add: score_of_def update_conv')
  ultimately show ?thesis by blast
qed

lemma score_candidates_scores:
  assumes "\<forall>c \<in> set cs. tool_name_of c \<noteq> None \<and> \<not> has_score c"
    and "\<forall>d \<in> set scored. has_score d"
  shows "\<exists>new. score_candidates fl state n scored cs = Inr (scored @ new) \<and> length new = length cs \<and>
           (\<forall>i < length cs.
              score_of (new ! i) =
                fl (fl (of_int (int n - int (length scored + i))) +
                fl (2 / fl (of_nat (get_tool_usage_count state (the (tool_name_of (cs ! i))) + 1)))) \<and>
              tool_name_of (new ! i) = tool_name_of (cs ! i))"
  using assms
proof (induction cs arbitrary: scored)
  case Nil
  then show ?case by simp
next
  case (Cons c cs)
  from Cons.prems obtain nm where nm: "tool_name_of c = Some nm" and ns: "\<not> has_score c" by auto
  from score_step[OF nm ns Cons.prems(2), of fl state n cs] obtain c' where
    step: "score_candidates fl state n scored (c # cs) = score_candidates fl state n (scored @ [c']) cs"
    and hs: "has_score c'" and tn: "tool_name_of c' = Some nm"
    and sc: "score_of c' = fl (fl (of_int (int n - int (length scored))) + fl (2 / fl (of_nat (get_tool_usage_count state nm + 1))))"
    by blast
  have "\<forall>d \<in> set (scored @ [c']). has_score d" using Cons.prems(2) hs by simp
  from Cons.IH[OF _ this] Cons.prems(1) obtain new where
    r: "score_candidates fl state n (scored @ [c']) cs = Inr ((scored @ [c']) @ new)"
    and l: "length new = length cs"
    and a: "\<forall>i < length cs.
              score_of (new ! i) =
                fl (fl (of_int (int n - int (length (scored @ [c']) + i))) +
                fl (2 / fl (of_nat (get_tool_usage_count state (the (tool_name_of (cs ! i))) + 1)))) \<and>
              tool_name_of (new ! i) = tool_name_of (cs ! i)"
    by auto
  have "score_candidates fl state n scored (c # cs) = Inr (scored @ (c' # new))"
    using step r by simp
  moreover have "length (c' # new) = length (c # cs)" using l by simp
  moreover have "\<forall>i < length (c # cs).
              score_of ((c' # new) ! i) =
                fl (fl (of_int (int n - int (length scored + i))) +
                fl (2 / fl (of_nat (get_tool_usage_count state (the (tool_name_of ((c # cs) ! i))) + 1)))) \<and>
              tool_name_of ((c' # new) ! i) = tool_name_of ((c # cs) ! i)"
  proof (intro allI impI)
    fix i assume "i < length (c # cs)"
    show "score_of ((c' # new) ! i) =
                fl (fl (of_int (int n - int (length scored + i))) +
                fl (2 / fl (of_nat (get_tool_usage_count state (the (tool_name_of ((c # cs) ! i))) + 1)))) \<and>
              tool_name_of ((c' # new) ! i) = tool_name_of ((c # cs) ! i)"
    proof (cases i)
      case 0
      then show ?thesis using sc tn nm by simp
    next
      case (Suc j)
      with \<open>i < length (c # cs)\<close> have "j < length cs" by simp
      with a Suc show ?thesis by simp
    qed
  qed
  ultimately show ?case by blast
qed

lemma valid_candidate_named:
  assumes "candidate_name c = Inr (Some name)" "is_valid_tool_any tm name = Inr True"
  shows "\<exists>s. tool_name_of c = Some s \<and> is_valid_tool tm s"
proof -
  from assms(1) obtain d where c: "c = JDict d"
    and n: "map_of d (asc ''tool_name'') = Some name"
    by (auto simp: candidate_name_def split: if_splits json.splits)
  from assms(2) obtain s where s: "name = JStr s" "is_valid_tool tm s"
    by (auto simp: is_valid_tool_any_def split: json.splits)
  show ?thesis using c n s by (simp add: tool_name_of_def)
qed

lemma collect_candidates_named:
  "\<forall>c \<in> set acc. \<exists>s. tool_name_of c = Some s \<and> is_valid_tool tm s \<Longrightarrow>
   \<forall>c \<in> set (collect_candidates tm acc rs). \<exists>s. tool_name_of c = Some s \<and> is_valid_tool tm s"
proof (induction tm acc rs rule: collect_candidates.induct)
  case (1 tm candidates)
  then show ?case by simp
next
  case (2 tm candidates rest)
  then show ?case by simp
next
  case (3 tm candidates c rest)
  show ?case
  proof (cases "candidate_name c")
    case (Inl e)
    then show ?thesis by simp
  next
    case (Inr on)
    note cn = this
    show ?thesis
    proof (cases on)
      case None
      have eq: "collect_candidates tm candidates (Reply c # rest) =
              collect_candidates tm candidates rest"
        using cn None by simp
      show ?thesis
        unfolding eq by (rule "3.IH"(1)[OF cn None "3.prems"])
    next
      case (Some name)
      show ?thesis
      proof (cases "is_valid_tool_any tm name")
        case (Inl e)
        with cn Some show ?thesis by simp
      next
        case (Inr b)
        show ?thesis
        proof (cases b)
          case True
          then have t: "b = True" by simp
          from cn Some Inr True
          have "\<exists>s. tool_name_of c = Some s \<and> is_valid_tool tm s"
            by (intro valid_candidate_named[of c name tm]) simp_all
          with "3.prems"
          have app: "\<forall>c \<in> set (candidates @ [c]). \<exists>s. tool_name_of c = Some s \<and> is_valid_tool tm s"
            by auto
          have eq: "collect_candidates tm candidates (Reply c # rest) =
                  collect_candidates tm (candidates @ [c]) rest"
            using cn Some Inr t by simp
          show ?thesis
            unfolding eq by (rule "3.IH"(2)[OF cn Some Inr t app])
        next
          case False
          then have f: "b = False" by simp
          have eq: "collect_candidates tm candidates (Reply c # rest) =
                  collect_candidates tm candidates rest"
            using cn Some Inr f by simp
          show ?thesis
            unfolding eq by (rule "3.IH"(3)[OF cn Some Inr f "3.prems"])
        qed
      qed
    qed
  qed
qed

lemma get_tool_candidates_named:
  "c \<in> set (get_tool_candidates tm llm) \<Longrightarrow> \<exists>s. tool_name_of c = Some s \<and> is_valid_tool tm s"
  using collect_candidates_named[of "[]" tm "map llm [0, 1, 2]"]
  by (simp add: get_tool_candidates_def)


text \<open>
  Claim C4, as the code has it.  For the candidates that survive the three collaborator
  calls, none of which already carries a \<open>score\<close> field, the scoring loop gives the
  candidate at position \<open>i\<close> among the survivors the score
  \<open>(n - i) + 2.0 / (usage + 1)\<close> computed in float arithmetic (the two \<open>int\<close>s
  converted, the quotient and the sum rounded), where \<open>n\<close> is the number of survivors
  (not the number of calls) and \<open>usage\<close> the session's usage count of the candidate's
  tool name.  This holds whatever the rounding \<open>fl\<close> is, so for Python's.  With three
  survivors \<open>n\<close> is the claim's \<open>K\<close>.
\<close>

theorem candidate_scores:
  assumes "\<forall>c \<in> set (get_tool_candidates tm llm). \<not> has_score c"
  shows "\<exists>scored.
           score_candidates fl state (length (get_tool_candidates tm llm)) []
             (get_tool_candidates tm llm) = Inr scored \<and>
           length scored = length (get_tool_candidates tm llm) \<and>
           (\<forall>i < length (get_tool_candidates tm llm).
              score_of (scored ! i) =
                fl (fl (of_int (int (length (get_tool_candidates tm llm)) - int i)) +
                fl (2 / fl (of_nat (get_tool_usage_count state
                              (the (tool_name_of (get_tool_candidates tm llm ! i))) + 1)))))"
proof -
  let ?cs = "get_tool_candidates tm llm"
  have "\<forall>c \<in> set ?cs. tool_name_of c \<noteq> None \<and> \<not> has_score c"
    using assms get_tool_candidates_named[of _ tm llm] by auto
  from score_candidates_scores[OF this, of "[]" fl state "length ?cs"]
  show ?thesis by auto
qed

lemma example_candidates:
  "get_tool_candidates example_catalog
     (replies_of [Reply example_candidate, Reply example_candidate, Reply example_candidate]) =
   [example_candidate, example_candidate, example_candidate]"
  by (simp add: get_tool_candidates_def replies_of_def example_candidate_def
        candidate_name_def is_valid_tool_any_def is_valid_tool_def example_catalog_def asc_def)

theorem candidate_scores_witness:
  "\<exists>scored.
     score_candidates binary64 init_state 3 []
       (get_tool_candidates example_catalog
          (replies_of [Reply example_candidate, Reply example_candidate,
                       Reply example_candidate])) = Inr scored \<and>
     score_of (scored ! 0) = 5 \<and> score_of (scored ! 1) = 4 \<and> score_of (scored ! 2) = 3"
proof -
  have ns: "\<forall>c \<in> set (get_tool_candidates example_catalog
          (replies_of [Reply example_candidate, Reply example_candidate,
                       Reply example_candidate])). \<not> has_score c"
    by (simp add: example_candidates) (simp add: example_candidate_def has_score_def asc_def)
  have u: "get_tool_usage_count init_state n = 0" for n
    by (simp add: get_tool_usage_count_def init_state_def)
  have len: "length (get_tool_candidates example_catalog
          (replies_of [Reply example_candidate, Reply example_candidate,
                       Reply example_candidate])) = 3"
    by (simp add: example_candidates)
  obtain scored where r: "score_candidates binary64 init_state 3 []
       (get_tool_candidates example_catalog
          (replies_of [Reply example_candidate, Reply example_candidate,
                       Reply example_candidate])) = Inr scored"
    and a: "\<forall>i < 3. score_of (scored ! i) = binary64 (binary64 (of_int (int 3 - int i)) +
                binary64 (2 / binary64 (of_nat (get_tool_usage_count init_state
                              (the (tool_name_of (get_tool_candidates example_catalog
          (replies_of [Reply example_candidate, Reply example_candidate,
                       Reply example_candidate]) ! i))) + 1))))"
    using candidate_scores[OF ns, of binary64 init_state] unfolding len by blast
  have "score_of (scored ! 0) = 5" "score_of (scored ! 1) = 4" "score_of (scored ! 2) = 3"
    using a by (simp_all add: u binary64_small)
  with r show ?thesis by blast
qed

text \<open>
  Claim C4 as stated fails: when one candidate survives out of the three calls, its
  score on a fresh session is \<open>1 + 2.0 / 1 = 3.0\<close>, not \<open>(3 - 0) + 2.0 / 1 = 5.0\<close>
  (all these numbers are floats, which the rounding leaves as they are).
\<close>

theorem candidate_scores_counterexample:
  "map_sum id score_of
     (apply_exploration_strategy binary64 (asc ''greedy'')
        \<lparr> uniform = 0, choice_index = 0, weighted = 0 \<rparr>
        (get_tool_candidates example_catalog
           (replies_of [Reply example_candidate, Reply (JDict []), Reply (JDict [])]))
        init_state) = Inr 3"
  by (simp add: get_tool_candidates_def replies_of_def example_candidate_def
        candidate_name_def is_valid_tool_any_def is_valid_tool_def example_catalog_def asc_def
        apply_exploration_strategy_def candidate_get_def usage_count_any_def
        get_tool_usage_count_def init_state_def candidate_set_def Let_def score_of_def
        binary64_small)

lemma placeholder_invalid: "\<not> is_valid_parameter_value (JStr placeholder_device)"
  by (simp add: is_valid_parameter_value_def placeholder_device_def invalid_patterns_def
        py_strip_def py_lower_def lower_cps_def is_space_def Let_def)

lemma x1_valid: "is_valid_parameter_value (JStr (asc ''X1''))"
  by (simp add: is_valid_parameter_value_def invalid_patterns_def asc_def
        py_strip_def py_lower_def lower_cps_def is_space_def Let_def)

lemma z9_valid: "is_valid_parameter_value (JStr (asc ''Z9''))"
  by (simp add: is_valid_parameter_value_def invalid_patterns_def asc_def
        py_strip_def py_lower_def lower_cps_def is_space_def Let_def)

lemma kind_device: "kind_of_name (asc ''device'') = Some Device"
  by (simp add: kind_of_name_def asc_def py_lower_def lower_cps_def)

lemma find_device_name:
  "find_valid_parameter (asc ''device_name'') known = first_or_empty (device_name known)"
  by (simp add: find_valid_parameter_def asc_def py_lower_def lower_cps_def)

lemma fix_parameter_keeps:
  "map_of d k = Some (JStr (find_valid_parameter k known)) \<Longrightarrow>
   map_of (fix_parameter known kv d) k = Some (JStr (find_valid_parameter k known))"
  by (simp add: fix_parameter_def Let_def update_conv')

lemma fold_fix_keeps:
  "map_of d k = Some (JStr (find_valid_parameter k known)) \<Longrightarrow>
   map_of (fold (fix_parameter known) kvs d) k = Some (JStr (find_valid_parameter k known))"
  by (induction kvs arbitrary: d) (simp_all add: fix_parameter_keeps)

lemma fold_fix_sets:
  "(k, v) \<in> set kvs \<Longrightarrow> find_valid_parameter k known \<noteq> [] \<Longrightarrow>
   map_of (fold (fix_parameter known) kvs d) k = Some (JStr (find_valid_parameter k known))"
proof (induction kvs arbitrary: d)
  case Nil
  then show ?case by simp
next
  case (Cons kv kvs)
  show ?case
  proof (cases "kv = (k, v)")
    case True
    then have "map_of (fix_parameter known kv d) k = Some (JStr (find_valid_parameter k known))"
      using Cons.prems(2) by (simp add: fix_parameter_def Let_def update_conv')
    then show ?thesis by (simp add: fold_fix_keeps)
  next
    case False
    with Cons.prems have "(k, v) \<in> set kvs" by simp
    from Cons.IH[OF this Cons.prems(2)] show ?thesis by simp
  qed
qed

text \<open>
  Claim C8, as the code has it.  The placeholder argument is classified as invalid, and
  when \<open>X1\<close> is the only device value that the goal's merged entities and context
  parameters and the history supply, the repair puts exactly \<open>X1\<close> in its place,
  whatever order \<open>list(set(...))\<close> yields.
\<close>

theorem repair_substitutes_known_device:
  assumes ord: "\<forall>xs. set (ord xs) = set xs"
    and request: "map_of plan (asc ''tool_request'') = Some (JDict d)"
    and arg: "map_of d (asc ''device_name'') = Some (JStr placeholder_device)"
    and known: "collect_known_parameters repr state goal = Inr known"
    and only: "set (device_name known) = {asc ''X1''}"
  shows "\<not> is_valid_parameter_value (JStr placeholder_device) \<and>
         (\<exists>plan' d'. validate_and_fix_parameters repr ord plan state goal = Inr plan' \<and>
            map_of plan' (asc ''tool_request'') = Some (JDict d') \<and>
            map_of d' (asc ''device_name'') = Some (JStr (asc ''X1'')) \<and>
            map_of plan' (asc ''tool_name'') = map_of plan (asc ''tool_name''))"
proof -
  let ?known = "\<lparr> device_name = ord (device_name known),
                interface_name = ord (interface_name known),
                ip = ord (ip known), vlan = ord (vlan known),
                hostname = ord (hostname known) \<rparr>"
  have ex: "extract_known_parameters repr ord state goal = Inr ?known"
    using known by (simp add: extract_known_parameters_def)
  have "set (ord (device_name known)) = {asc ''X1''}" using ord only by simp
  then have "first_or_empty (ord (device_name known)) = asc ''X1''"
    by (cases "ord (device_name known)") (auto simp: first_or_empty_def)
  then have fnd: "find_valid_parameter (asc ''device_name'') ?known = asc ''X1''"
    by (simp add: find_device_name)
  have ne: "asc ''X1'' \<noteq> []" by (simp add: asc_def)
  from arg have "(asc ''device_name'', JStr placeholder_device) \<in> set d"
    by (rule map_of_SomeD)
  then have "(asc ''device_name'', JStr placeholder_device) \<in>
               set (filter (\<lambda>kv. \<not> is_valid_parameter_value (snd kv)) d)"
    using placeholder_invalid by simp
  from fold_fix_sets[OF this, of ?known d] fnd ne
  have fixed: "map_of (fold (fix_parameter ?known)
                  (filter (\<lambda>kv. \<not> is_valid_parameter_value (snd kv)) d) d) (asc ''device_name'') =
               Some (JStr (asc ''X1''))"
    by simp
  have tn: "asc ''tool_name'' \<noteq> asc ''tool_request''" by (simp add: asc_def)
  have "validate_and_fix_parameters repr ord plan state goal =
          Inr (AList.update (asc ''tool_request'')
                 (JDict (fold (fix_parameter ?known)
                    (filter (\<lambda>kv. \<not> is_valid_parameter_value (snd kv)) d) d)) plan)"
    using request ex by (simp add: validate_and_fix_parameters_def Let_def)
  with fixed tn placeholder_invalid show ?thesis
    by (simp add: update_conv')
qed

lemma example_goal_known:
  "collect_known_parameters (\<lambda>v. []) init_state
     [(asc ''entities'', JDict [(asc ''device'', JStr (asc ''X1''))])] =
   Inr \<lparr> device_name = [asc ''X1''], interface_name = [], ip = [], vlan = [], hostname = [] \<rparr>"
  using x1_valid kind_device
  by (simp add: collect_known_parameters_def goal_mapping_def merge_dicts_def goal_param_def
        init_state_def py_str_def add_known_def asc_simps)

theorem repair_substitutes_known_device_witness:
  "\<exists>d'. repaired_request (validate_and_fix_parameters (\<lambda>v. []) remdups example_plan init_state
            [(asc ''entities'', JDict [(asc ''device'', JStr (asc ''X1''))])]) =
          Some (JDict d') \<and>
        map_of d' (asc ''device_name'') = Some (JStr (asc ''X1''))"
proof -
  have ord: "\<forall>xs::pystr list. set (remdups xs) = set xs" by simp
  have request: "map_of example_plan (asc ''tool_request'') =
                   Some (JDict [(asc ''device_name'', JStr placeholder_device)])"
    by (simp add: example_plan_def asc_def)
  have arg: "map_of [(asc ''device_name'', JStr placeholder_device)] (asc ''device_name'') =
               Some (JStr placeholder_device)"
    by simp
  have only: "set (device_name \<lparr> device_name = [asc ''X1''], interface_name = [], ip = [],
                vlan = [], hostname = [] \<rparr>) = {asc ''X1''}"
    by simp
  from repair_substitutes_known_device[OF ord request arg example_goal_known only]
  show ?thesis by (auto simp: repaired_request_def)
qed

text \<open>
  Claim C8 as stated fails: with \<open>entities.device = X1\<close> and a context parameter
  \<open>device = Z9\<close>, the merge \<open>{**goal_entities, **context_params}\<close> keeps \<open>Z9\<close>, and
  the repair substitutes \<open>Z9\<close>.
\<close>

theorem repair_counterexample:
  "repaired_request (validate_and_fix_parameters (\<lambda>v. []) remdups example_plan init_state
     [(asc ''entities'', JDict [(asc ''device'', JStr (asc ''X1''))]),
      (asc ''context_params'', JDict [(asc ''device'', JStr (asc ''Z9''))])]) =
   Some (JDict [(asc ''device_name'', JStr (asc ''Z9''))])"
  by (simp add: validate_and_fix_parameters_def extract_known_parameters_def
        repaired_request_def example_plan_def Let_def fix_parameter_def first_or_empty_def
        collect_known_parameters_def goal_mapping_def merge_dicts_def goal_param_def
        init_state_def py_str_def add_known_def asc_def kind_of_name_def py_lower_def
        lower_cps_def is_valid_parameter_value_def invalid_patterns_def py_strip_def
        is_space_def placeholder_device_def find_valid_parameter_def)

lemma null_candidates:
  "get_tool_candidates example_catalog
     (replies_of [Reply null_request_candidate, Reply null_request_candidate,
                  Reply null_request_candidate]) =
   [null_request_candidate, null_request_candidate, null_request_candidate]"
  by (simp add: get_tool_candidates_def replies_of_def null_request_candidate_def
        candidate_name_def is_valid_tool_any_def is_valid_tool_def example_catalog_def asc_def)

lemma null_selected:
  "apply_exploration_strategy binary64 (asc ''greedy'') no_draws
     [null_request_candidate, null_request_candidate, null_request_candidate] init_state =
   Inr (JDict [(asc ''tool_name'', JStr (asc ''query_interface_info'')),
            (asc ''tool_request'', JNull), (asc ''score'', JNum 5)])"
  by (simp add: apply_exploration_strategy_def null_request_candidate_def candidate_get_def
        usage_count_any_def get_tool_usage_count_def init_state_def candidate_set_def Let_def
        score_of_def asc_def binary64_small)

text \<open>
  Claim C3 fails on the code.  With a non-empty catalog, a collaborator reply that names
  a valid tool and carries \<open>"tool_request": null\<close> is accepted as a candidate and
  selected; \<open>_validate_and_fix_parameters\<close> then calls \<open>items\<close> on \<open>None\<close>, and the
  \<open>AttributeError\<close> leaves \<open>select_next_tool\<close> uncaught: the planning path aborts
  the session although the catalog is not empty.
\<close>

theorem select_next_tool_aborts:
  "get_all_tool_names example_catalog \<noteq> [] \<and>
   select_next_tool (\<lambda>v. []) remdups binary64 example_catalog (asc ''greedy'')
     (\<lambda>retry. replies_of [Reply null_request_candidate, Reply null_request_candidate,
                          Reply null_request_candidate])
     CallFails (\<lambda>retry. no_draws) init_state [] None = Inl AttributeError"
proof -
  have prompt: "generate_planning_prompt (\<lambda>v. []) remdups init_state [] None = None"
    by (simp add: generate_planning_prompt_def extract_known_parameters_def
          collect_known_parameters_def goal_mapping_def merge_dicts_def init_state_def
          dict_get_def Let_def)
  have valid: "selected_is_valid example_catalog
      (JDict [(asc ''tool_name'', JStr (asc ''query_interface_info'')),
            (asc ''tool_request'', JNull), (asc ''score'', JNum 5)]) = Inr True"
    by (simp add: selected_is_valid_def is_valid_tool_any_def is_valid_tool_def
          example_catalog_def asc_def)
  have fixed: "validate_selected (\<lambda>v. []) remdups
      (JDict [(asc ''tool_name'', JStr (asc ''query_interface_info'')),
            (asc ''tool_request'', JNull), (asc ''score'', JNum 5)]) init_state [] =
      Inl AttributeError"
    by (simp add: validate_selected_def validate_and_fix_parameters_def
          extract_known_parameters_def collect_known_parameters_def goal_mapping_def
          merge_dicts_def init_state_def Let_def asc_def)
  have "get_all_tool_names example_catalog \<noteq> []"
    by (simp add: get_all_tool_names_def example_catalog_def)
  then show ?thesis
    by (simp add: select_next_tool_def prompt null_candidates null_selected valid fixed Let_def)
qed

lemma key_neqs:
  "asc ''tool_request'' \<noteq> asc ''error''" "asc ''tool_request'' \<noteq> asc ''tool_name''"
  "asc ''score'' \<noteq> asc ''error''" "asc ''score'' \<noteq> asc ''tool_name''"
  "asc ''score'' \<noteq> asc ''tool_request''" "asc ''tool_name'' \<noteq> asc ''error''"
  "asc ''tool_name'' \<noteq> asc ''tool_request''" "asc ''error'' \<noteq> asc ''tool_name''"
  "asc ''error'' \<noteq> asc ''tool_request''"
  by (simp_all add: asc_def)

lemma validate_selected_good:
  assumes known: "extract_known_parameters repr ord state goal = Inr known"
    and wf: "well_formed_candidate (JDict d)"
    and name: "tool_name_of (JDict d) = Some n" and valid: "is_valid_tool tm n"
  shows "\<exists>p. validate_selected repr ord (JDict d) state goal = Inr p \<and> good_plan tm p"
proof -
  from name have tn: "map_of d (asc ''tool_name'') = Some (JStr n)"
    by (auto simp: tool_name_of_def split: option.splits json.splits)
  from wf have er: "map_of d (asc ''error'') = None"
    by (simp add: well_formed_candidate_def)
  from wf consider "map_of d (asc ''tool_request'') = None"
    | r where "map_of d (asc ''tool_request'') = Some (JDict r)"
    by (auto simp: well_formed_candidate_def split: option.splits json.splits)
  then show ?thesis
  proof cases
    case 1
    then show ?thesis using known tn er valid key_neqs
      by (simp add: validate_selected_def validate_and_fix_parameters_def good_plan_def
            update_conv')
  next
    case 2
    then show ?thesis using known tn er valid key_neqs
      by (simp add: validate_selected_def validate_and_fix_parameters_def good_plan_def
            update_conv' Let_def)
  qed
qed

lemma collect_candidates_from:
  "c \<in> set (collect_candidates tm acc rs) \<Longrightarrow> c \<in> set acc \<or> Reply c \<in> set rs"
proof (induction tm acc rs rule: collect_candidates.induct)
  case (1 tm candidates)
  then show ?case by simp
next
  case (2 tm candidates rest)
  then show ?case by simp
next
  case (3 tm candidates c' rest)
  show ?case
  proof (cases "candidate_name c'")
    case (Inl e)
    with "3.prems" show ?thesis by simp
  next
    case (Inr on)
    note cn = this
    show ?thesis
    proof (cases on)
      case None
      with cn "3.prems" have "c \<in> set (collect_candidates tm candidates rest)" by simp
      from "3.IH"(1)[OF cn None this] show ?thesis by auto
    next
      case (Some name)
      show ?thesis
      proof (cases "is_valid_tool_any tm name")
        case (Inl e)
        with cn Some "3.prems" show ?thesis by simp
      next
        case (Inr b)
        show ?thesis
        proof (cases b)
          case True
          then have t: "b = True" by simp
          with cn Some Inr "3.prems"
          have "c \<in> set (collect_candidates tm (candidates @ [c']) rest)" by simp
          from "3.IH"(2)[OF cn Some Inr t this] show ?thesis by auto
        next
          case False
          then have f: "b = False" by simp
          with cn Some Inr "3.prems"
          have "c \<in> set (collect_candidates tm candidates rest)" by simp
          from "3.IH"(3)[OF cn Some Inr f this] show ?thesis by auto
        qed
      qed
    qed
  qed
qed

lemma get_tool_candidates_from:
  "c \<in> set (get_tool_candidates tm llm) \<Longrightarrow> \<exists>i. llm i = Reply c"
  using collect_candidates_from[of c tm "[]" "map llm [0, 1, 2]"]
  by (auto simp: get_tool_candidates_def)

lemma index_among_le: "index_among scored c \<le> length scored"
  by (induction scored) auto

lemma score_candidates_total:
  assumes "\<forall>c \<in> set cs. tool_name_of c \<noteq> None" "length acc + length cs \<le> n"
    and ge1: "\<forall>x. 1 \<le> x \<longrightarrow> 1 \<le> fl x" and ge0: "\<forall>x. 0 \<le> x \<longrightarrow> 0 \<le> fl x"
  shows "\<exists>new. score_candidates fl state n acc cs = Inr (acc @ new) \<and>
           list_all2 scored_from cs new"
  using assms(1,2)
proof (induction cs arbitrary: acc)
  case Nil
  then show ?case by simp
next
  case (Cons c cs)
  from Cons.prems(1) obtain d nm where c: "c = JDict d"
    and nm: "map_of d (asc ''tool_name'') = Some (JStr nm)"
    by (auto simp: tool_name_of_def split: json.splits option.splits)
  let ?base = "of_int (int n - int (index_among acc c)) :: rat"
  let ?bonus = "fl (2 / fl (of_nat (get_tool_usage_count state nm + 1)))"
  let ?v = "fl (fl ?base + ?bonus)"
  let ?c' = "JDict (AList.update (asc ''score'') (JNum ?v) d)"
  have "index_among acc c < n" using index_among_le[of acc c] Cons.prems(2) by simp
  then have "int n - int (index_among acc c) \<ge> 1" by simp
  then have "(1::rat) \<le> ?base" by (metis of_int_1 of_int_le_iff)
  then have b1: "1 \<le> fl ?base" using ge1 by blast
  have "(1::rat) \<le> of_nat (get_tool_usage_count state nm + 1)" by simp
  then have "1 \<le> fl (of_nat (get_tool_usage_count state nm + 1))" using ge1 by blast
  then have "0 \<le> 2 / fl (of_nat (get_tool_usage_count state nm + 1))" by simp
  then have b0: "0 \<le> ?bonus" using ge0 by blast
  from b1 b0 have "1 \<le> fl ?base + ?bonus" by simp
  then have pos: "1 \<le> ?v" using ge1 by blast
  have step: "score_candidates fl state n acc (c # cs) =
                score_candidates fl state n (acc @ [?c']) cs"
    using c nm by (simp add: candidate_get_def usage_count_any_def candidate_set_def Let_def)
  have sf: "scored_from c ?c'" using c pos unfolding scored_from_def by blast
  from Cons.prems
  have "\<forall>c \<in> set cs. tool_name_of c \<noteq> None" "length (acc @ [?c']) + length cs \<le> n"
    by simp_all
  from Cons.IH[OF this] obtain new where
    r: "score_candidates fl state n (acc @ [?c']) cs = Inr ((acc @ [?c']) @ new)"
    and l: "list_all2 scored_from cs new" by blast
  have "score_candidates fl state n acc (c # cs) = Inr (acc @ (?c' # new))"
    using step r by simp
  moreover have "list_all2 scored_from (c # cs) (?c' # new)" using sf l by simp
  ultimately show ?case by blast
qed

lemma scored_from_score: "scored_from c c' \<Longrightarrow> score_of c' \<ge> 1"
  by (auto simp: scored_from_def score_of_def update_conv')

lemma sums_from_ge1:
  assumes ge1: "\<forall>x. 1 \<le> x \<longrightarrow> 1 \<le> fl x"
  shows "\<forall>w \<in> set ws. 1 \<le> w \<Longrightarrow> 1 \<le> acc \<Longrightarrow> x \<in> set (sums_from fl acc ws) \<Longrightarrow> 1 \<le> x"
proof (induction ws arbitrary: acc)
  case Nil
  then show ?case by simp
next
  case (Cons w ws)
  from Cons.prems(1,2) have "1 \<le> acc + w" by simp
  then have f: "1 \<le> fl (acc + w)" using ge1 by blast
  from Cons.prems(3) consider "x = fl (acc + w)" | "x \<in> set (sums_from fl (fl (acc + w)) ws)"
    by auto
  then show ?case
  proof cases
    case 1
    then show ?thesis using f by simp
  next
    case 2
    from Cons.IH[OF _ f 2] Cons.prems(1) show ?thesis by simp
  qed
qed

lemma accumulate_ge1:
  assumes "\<forall>x. 1 \<le> x \<longrightarrow> 1 \<le> fl x" "\<forall>w \<in> set ws. 1 \<le> w" "x \<in> set (accumulate fl ws)"
  shows "1 \<le> x"
proof (cases ws)
  case Nil
  with assms(3) show ?thesis by (simp add: accumulate_def)
next
  case (Cons w ws')
  with assms(3) consider "x = w" | "x \<in> set (sums_from fl w ws')"
    by (auto simp: accumulate_def)
  then show ?thesis
  proof cases
    case 1
    then show ?thesis using assms(2) Cons by simp
  next
    case 2
    from sums_from_ge1[OF assms(1) _ _ 2] assms(2) Cons show ?thesis by simp
  qed
qed

lemma bisect_right_le: "lo \<le> hi \<Longrightarrow> bisect_right a x lo hi \<le> hi"
proof (induction a x lo hi rule: bisect_right.induct)
  case (1 a x lo hi)
  show ?case
  proof (cases "lo < hi")
    case False
    then have "bisect_right a x lo hi = lo" by (subst bisect_right.simps) simp
    with "1.prems" show ?thesis by simp
  next
    case True
    let ?mid = "(lo + hi) div 2"
    show ?thesis
    proof (cases "x < a ! ?mid")
      case lt: True
      have "lo \<le> ?mid" using True by linarith
      from "1.IH"(1)[OF True refl lt this] have "bisect_right a x lo ?mid \<le> ?mid" .
      also have "?mid \<le> hi" using True by linarith
      finally show ?thesis using True lt by (simp add: bisect_right.simps[of a x lo hi])
    next
      case ge: False
      have "?mid + 1 \<le> hi" using True by linarith
      from "1.IH"(2)[OF True refl ge this] show ?thesis
        using True ge by (simp add: bisect_right.simps[of a x lo hi])
    qed
  qed
qed

lemma weighted_choice_in:
  assumes "population \<noteq> []" "\<forall>c \<in> set population. 1 \<le> score_of c"
    and ge1: "\<forall>x. 1 \<le> x \<longrightarrow> 1 \<le> fl x"
  shows "\<exists>c \<in> set population.
           weighted_choice fl u population (map score_of population) = Inr c"
proof -
  let ?cum = "accumulate fl (map score_of population)"
  have ne: "?cum \<noteq> []" using assms(1) by (cases population) (auto simp: accumulate_def)
  then have "last ?cum \<in> set ?cum" by simp
  from accumulate_ge1[OF ge1 _ this] assms(2) have "1 \<le> last ?cum" by simp
  then have "1 \<le> last ?cum + 0" by simp
  then have "1 \<le> fl (last ?cum + 0)" using ge1 by blast
  then have pos: "\<not> fl (last ?cum + 0) \<le> 0" by simp
  let ?i = "bisect_right ?cum (fl (u * fl (last ?cum + 0))) 0 (length population - 1)"
  have "?i \<le> length population - 1" by (rule bisect_right_le) simp
  also have "\<dots> < length population" using assms(1) by simp
  finally have "population ! ?i \<in> set population" by simp
  then show ?thesis using ne pos by (simp add: weighted_choice_def Let_def)
qed

lemma nth_mod_in: "xs \<noteq> [] \<Longrightarrow> xs ! (k mod length xs) \<in> set xs"
  by simp

lemma apply_exploration_strategy_picks:
  assumes "cs \<noteq> []" "\<forall>c \<in> set cs. tool_name_of c \<noteq> None"
    and ge1: "\<forall>x. 1 \<le> x \<longrightarrow> 1 \<le> fl x" and ge0: "\<forall>x. 0 \<le> x \<longrightarrow> 0 \<le> fl x"
  shows "\<exists>c \<in> set cs. \<exists>sel. apply_exploration_strategy fl mode rnd cs state = Inr sel \<and>
           scored_from c sel"
proof -
  from score_candidates_total[OF assms(2) _ ge1 ge0, of "[]" "length cs" state]
  obtain scored where r: "score_candidates fl state (length cs) [] cs = Inr scored"
    and l: "list_all2 scored_from cs scored" by auto
  let ?sorted = "sort_key (\<lambda>c. - score_of c) scored"
  have len: "length scored = length cs" using l by (simp add: list_all2_lengthD)
  have ne: "?sorted \<noteq> []" using assms(1) len by (metis length_0_conv length_sort)
  have from_cs: "\<exists>c \<in> set cs. scored_from c sel" if "sel \<in> set scored" for sel
  proof -
    from that obtain i where "i < length scored" "scored ! i = sel"
      by (auto simp: in_set_conv_nth)
    with l len have "scored_from (cs ! i) sel" "cs ! i \<in> set cs"
      by (auto simp: list_all2_conv_all_nth)
    then show ?thesis by blast
  qed
  have sub: "set ?sorted = set scored" by simp
  have "hd ?sorted \<in> set ?sorted" using ne by (rule hd_in_set)
  then have hd_in: "hd ?sorted \<in> set scored" unfolding sub .
  have tl_in: "tl ?sorted ! (k mod length (tl ?sorted)) \<in> set scored"
    if "length ?sorted > 1" for k
  proof -
    from that have "tl ?sorted \<noteq> []" by (cases ?sorted) auto
    then have "tl ?sorted ! (k mod length (tl ?sorted)) \<in> set (tl ?sorted)"
      by (rule nth_mod_in)
    then have "tl ?sorted ! (k mod length (tl ?sorted)) \<in> set ?sorted"
      using ne by (metis list.set_sel(2))
    then show ?thesis unfolding sub .
  qed
  have "\<forall>c \<in> set ?sorted. 1 \<le> score_of c"
    unfolding sub using from_cs scored_from_score by blast
  from weighted_choice_in[OF ne this ge1, of "weighted rnd"]
  obtain w where "w \<in> set ?sorted"
    and w: "weighted_choice fl (weighted rnd) ?sorted (map score_of ?sorted) = Inr w" by blast
  then have w_in: "w \<in> set scored" unfolding sub by simp
  have "\<exists>sel \<in> set scored. apply_exploration_strategy fl mode rnd cs state = Inr sel"
  proof (cases "mode = asc ''greedy''")
    case True
    then show ?thesis using assms(1) r hd_in
      by (simp add: apply_exploration_strategy_def Let_def)
  next
    case False
    note ng = this
    show ?thesis
    proof (cases "mode = asc ''balanced''")
      case True
      then show ?thesis using assms(1) r hd_in tl_in ng
        by (simp add: apply_exploration_strategy_def Let_def)
    next
      case False
      then show ?thesis using assms(1) r w w_in ng
        by (simp add: apply_exploration_strategy_def Let_def)
    qed
  qed
  with from_cs show ?thesis by blast
qed

lemma scored_from_keeps:
  assumes "scored_from c sel" "tool_name_of c = Some n" "well_formed_candidate c"
  shows "\<exists>d. sel = JDict d \<and> tool_name_of sel = Some n \<and> well_formed_candidate sel"
  using assms key_neqs
  by (auto simp: scored_from_def tool_name_of_def well_formed_candidate_def update_conv'
        split: option.splits json.splits)

lemma named_selected_is_valid:
  "tool_name_of sel = Some n \<Longrightarrow> is_valid_tool tm n \<Longrightarrow> selected_is_valid tm sel = Inr True"
  by (auto simp: tool_name_of_def selected_is_valid_def is_valid_tool_any_def
        split: json.splits option.splits)

lemma retry_loop_good:
  assumes known: "extract_known_parameters repr ord state goal = Inr known"
    and replies: "\<forall>retry i c. llm retry i = Reply c \<longrightarrow> well_formed_candidate c"
    and ge1: "\<forall>x. 1 \<le> x \<longrightarrow> 1 \<le> fl x" and ge0: "\<forall>x. 0 \<le> x \<longrightarrow> 0 \<le> fl x"
  shows "retry_loop repr ord fl tm mode llm rnd state goal rs = Some r \<Longrightarrow>
         \<exists>p. r = Inr p \<and> good_plan tm p"
proof (induction rs)
  case Nil
  then show ?case by simp
next
  case (Cons retry rest)
  let ?cs = "get_tool_candidates tm (llm retry)"
  show ?case
  proof (cases "?cs = []")
    case True
    with Cons show ?thesis by simp
  next
    case False
    have named: "\<forall>c \<in> set ?cs. tool_name_of c \<noteq> None"
      using get_tool_candidates_named[of _ tm "llm retry"] by auto
    from apply_exploration_strategy_picks[OF False named ge1 ge0, of mode "rnd retry" state]
    obtain c sel where c: "c \<in> set ?cs"
      and sel: "apply_exploration_strategy fl mode (rnd retry) ?cs state = Inr sel"
      and sf: "scored_from c sel" by blast
    from get_tool_candidates_named[OF c] obtain n where
      n: "tool_name_of c = Some n" "is_valid_tool tm n" by blast
    from get_tool_candidates_from[OF c] replies have wf: "well_formed_candidate c" by blast
    from scored_from_keeps[OF sf n(1) wf] obtain d where
      d: "sel = JDict d" "tool_name_of sel = Some n" "well_formed_candidate sel" by blast
    have v: "selected_is_valid tm sel = Inr True"
      using named_selected_is_valid[OF d(2) n(2)] .
    have "retry_loop repr ord fl tm mode llm rnd state goal (retry # rest) =
            Some (validate_selected repr ord sel state goal)"
      using False sel v by (simp add: Let_def)
    with Cons.prems have r: "r = validate_selected repr ord sel state goal" by simp
    from validate_selected_good[OF known, of d n tm] d n(2)
    show ?thesis unfolding r by simp
  qed
qed

lemma best_similar_in:
  "best_similar fl name tools_list = Some t \<Longrightarrow> t \<in> set tools_list"
proof -
  have "fst (fold (\<lambda>tool best.
                  let score = simple_similarity fl name tool
                  in if score > snd best \<and> score > fl (6 / 10) then (Some tool, score)
                     else best)
            xs b) = Some t \<Longrightarrow> fst b = Some t \<or> t \<in> set xs" for xs b
    by (induction xs arbitrary: b) (fastforce simp: Let_def split: if_splits)+
  from this[of tools_list "(None, 0)"]
  show "best_similar fl name tools_list = Some t \<Longrightarrow> t \<in> set tools_list"
    by (simp add: best_similar_def)
qed

lemma fuzzy_match_in:
  "fuzzy_match_tool_name fl name tools_list = Some t \<Longrightarrow> t \<in> set tools_list"
  by (auto simp: fuzzy_match_tool_name_def Let_def find_Some_iff best_similar_in
        split: if_splits option.splits)

lemma catalog_name_valid: "t \<in> set (get_all_tool_names tm) \<Longrightarrow> is_valid_tool tm t"
  by (simp add: get_all_tool_names_def is_valid_tool_def)

lemma try_tool_name_correction_good:
  assumes "try_tool_name_correction fl tm strict_reply = Some c'"
    and strict: "\<forall>c. strict_reply = Reply c \<longrightarrow> well_formed_candidate c"
  shows "\<exists>d n. c' = JDict d \<and> tool_name_of c' = Some n \<and> is_valid_tool tm n \<and>
               well_formed_candidate c'"
proof -
  from assms(1) obtain c where sr: "strict_reply = Reply c"
    by (cases strict_reply) (auto simp: try_tool_name_correction_def)
  with strict have wf: "well_formed_candidate c" by simp
  from assms(1) sr obtain name where cn: "candidate_name c = Inr (Some name)"
    by (auto simp: try_tool_name_correction_def Let_def split: sum.splits option.splits)
  then obtain d where c: "c = JDict d" and dn: "map_of d (asc ''tool_name'') = Some name"
    by (auto simp: candidate_name_def split: if_splits json.splits)
  from assms(1) sr cn obtain b where iv: "is_valid_tool_any tm name = Inr b"
    by (auto simp: try_tool_name_correction_def Let_def split: sum.splits)
  show ?thesis
  proof (cases b)
    case True
    with assms(1) sr cn iv have "c' = c" by (simp add: try_tool_name_correction_def Let_def)
    moreover from valid_candidate_named[OF cn] iv True
    have "\<exists>n. tool_name_of c = Some n \<and> is_valid_tool tm n" by simp
    ultimately show ?thesis using c wf by auto
  next
    case False
    with assms(1) sr cn iv obtain s t where s: "name = JStr s"
      and t: "fuzzy_match_tool_name fl s (get_all_tool_names tm) = Some t" "t \<noteq> []"
      and c': "candidate_set c (asc ''tool_name'') (JStr t) = Inr c'"
      by (auto simp: try_tool_name_correction_def Let_def
            split: json.splits option.splits if_splits sum.splits)
    from fuzzy_match_in[OF t(1)] have "is_valid_tool tm t" by (rule catalog_name_valid)
    moreover from c' c have "c' = JDict (AList.update (asc ''tool_name'') (JStr t) d)"
      by (simp add: candidate_set_def)
    ultimately show ?thesis using wf c key_neqs
      by (auto simp: tool_name_of_def well_formed_candidate_def update_conv'
            split: option.splits json.splits)
  qed
qed

lemma select_fallback_name_good:
  assumes "all_tools \<noteq> []"
  shows "\<exists>t. select_fallback_name all_tools state = Inr t \<and>
             (t \<in> set all_tools \<or> t \<in> fst ` set (tool_usage_count state))"
proof (cases "step_count state = 0")
  case True
  then show ?thesis using assms
    by (auto simp: select_fallback_name_def Let_def intro: hd_in_set
          dest!: hd_in_set[of "filter P all_tools" for P])
next
  case False
  let ?unused = "filter (\<lambda>t. t \<notin> fst ` set (tool_usage_count state)) all_tools"
  show ?thesis
  proof (cases "?unused = []")
    case False
    then have "hd ?unused \<in> set ?unused" by (rule hd_in_set)
    then have "hd ?unused \<in> set all_tools" by simp
    with False \<open>step_count state \<noteq> 0\<close> show ?thesis
      by (simp add: select_fallback_name_def Let_def)
  next
    case True
    then have "\<forall>t \<in> set all_tools. t \<in> fst ` set (tool_usage_count state)"
      by (simp add: filter_empty_conv)
    moreover have "hd all_tools \<in> set all_tools" using assms by (rule hd_in_set)
    ultimately have "hd all_tools \<in> fst ` set (tool_usage_count state)" by blast
    then have ne: "tool_usage_count state \<noteq> []" by auto
    let ?m = "Min (set (map snd (tool_usage_count state)))"
    have "?m \<in> set (map snd (tool_usage_count state))"
      using ne by (intro Min_in) auto
    then obtain tc where tc: "tc \<in> set (tool_usage_count state)" "snd tc = ?m" by auto
    then have "filter (\<lambda>tc. snd tc = ?m) (tool_usage_count state) \<noteq> []"
      by (auto simp: filter_empty_conv)
    then obtain x xs where x: "filter (\<lambda>tc. snd tc = ?m) (tool_usage_count state) = x # xs"
      by (cases "filter (\<lambda>tc. snd tc = ?m) (tool_usage_count state)") auto
    then have "x \<in> set (filter (\<lambda>tc. snd tc = ?m) (tool_usage_count state))" by simp
    then have "fst x \<in> fst ` set (tool_usage_count state)" by auto
    with True ne x \<open>step_count state \<noteq> 0\<close> show ?thesis
      by (simp add: select_fallback_name_def Let_def)
  qed
qed

lemma select_fallback_tool_good:
  assumes catalog: "get_all_tool_names tm \<noteq> []"
    and ents: "goal_mapping goal (asc ''entities'') = Inr es"
    and ctx: "goal_mapping goal (asc ''context_params'') = Inr cp"
    and used: "\<forall>n \<in> fst ` set (tool_usage_count state). is_valid_tool tm n"
  shows "\<exists>d n. select_fallback_tool tm state goal = Inr (JDict d) \<and>
           tool_name_of (JDict d) = Some n \<and> is_valid_tool tm n \<and>
           well_formed_candidate (JDict d)"
proof -
  from select_fallback_name_good[OF catalog, of state] obtain t where
    t: "select_fallback_name (get_all_tool_names tm) state = Inr t"
    and "t \<in> set (get_all_tool_names tm) \<or> t \<in> fst ` set (tool_usage_count state)" by blast
  then have v: "is_valid_tool tm t" using used catalog_name_valid by blast
  show ?thesis
    using catalog t ents ctx v key_neqs
    by (simp add: select_fallback_tool_def Let_def tool_name_of_def well_formed_candidate_def
          asc_def)
qed

lemma prompt_ok_known:
  "generate_planning_prompt repr ord state goal ke = None \<Longrightarrow>
   \<exists>known es cp. extract_known_parameters repr ord state goal = Inr known \<and>
      goal_mapping goal (asc ''entities'') = Inr es \<and>
      goal_mapping goal (asc ''context_params'') = Inr cp"
  by (auto simp: generate_planning_prompt_def extract_known_parameters_def
        collect_known_parameters_def Let_def split: if_splits sum.splits)

text \<open>
  Apart from that slip the planner does return.  With a non-empty catalog, a goal and a
  history on which the prompt can be built, collaborator replies that are well formed and
  usage counters that name valid tools only, \<open>select_next_tool\<close> returns a plan that
  names a valid tool and has no \<open>error\<close> field, whatever the replies, the exploration
  mode and the random draws are.  Of the rounding it needs only that it keeps a number
  that is at least one at least one, and a number that is not negative not negative.
\<close>

lemma select_next_tool_returns:
  assumes catalog: "get_all_tool_names tm \<noteq> []"
    and prompt: "generate_planning_prompt repr ord state goal ke = None"
    and replies: "\<forall>retry i c. llm retry i = Reply c \<longrightarrow> well_formed_candidate c"
    and strict: "\<forall>c. strict_reply = Reply c \<longrightarrow> well_formed_candidate c"
    and used: "\<forall>n \<in> fst ` set (tool_usage_count state). is_valid_tool tm n"
    and ge1: "\<forall>x. 1 \<le> x \<longrightarrow> 1 \<le> fl x" and ge0: "\<forall>x. 0 \<le> x \<longrightarrow> 0 \<le> fl x"
  shows "\<exists>p. select_next_tool repr ord fl tm mode llm strict_reply rnd state goal ke =
               Inr p \<and> good_plan tm p"
proof -
  from prompt_ok_known[OF prompt] obtain known es cp where
    known: "extract_known_parameters repr ord state goal = Inr known"
    and es: "goal_mapping goal (asc ''entities'') = Inr es"
    and cp: "goal_mapping goal (asc ''context_params'') = Inr cp" by blast
  show ?thesis
  proof (cases "retry_loop repr ord fl tm mode llm rnd state goal [0, 1, 2]")
    case (Some r)
    from retry_loop_good[OF known replies ge1 ge0 Some] show ?thesis
      using prompt Some by (simp add: select_next_tool_def)
  next
    case None
    note rl = this
    show ?thesis
    proof (cases "try_tool_name_correction fl tm strict_reply")
      case (Some c')
      from try_tool_name_correction_good[OF Some strict] obtain d n where
        "c' = JDict d" "tool_name_of c' = Some n" "is_valid_tool tm n" "well_formed_candidate c'"
        by blast
      with validate_selected_good[OF known, of d n tm] show ?thesis
        using prompt rl Some by (simp add: select_next_tool_def)
    next
      case None
      from select_fallback_tool_good[OF catalog es cp used] obtain d n where
        "select_fallback_tool tm state goal = Inr (JDict d)"
        "tool_name_of (JDict d) = Some n" "is_valid_tool tm n" "well_formed_candidate (JDict d)"
        by blast
      with validate_selected_good[OF known, of d n tm] show ?thesis
        using prompt rl None by (simp add: select_next_tool_def)
    qed
  qed
qed

text \<open>In particular with Python's floats.\<close>

lemma select_next_tool_returns_binary64:
  assumes "get_all_tool_names tm \<noteq> []"
    and "generate_planning_prompt repr ord state goal ke = None"
    and "\<forall>retry i c. llm retry i = Reply c \<longrightarrow> well_formed_candidate c"
    and "\<forall>c. strict_reply = Reply c \<longrightarrow> well_formed_candidate c"
    and "\<forall>n \<in> fst ` set (tool_usage_count state). is_valid_tool tm n"
  shows "\<exists>p. select_next_tool repr ord binary64 tm mode llm strict_reply rnd state goal ke =
               Inr p \<and> good_plan tm p"
  using assms binary64_ge1 binary64_nonneg by (intro select_next_tool_returns) blast+

end
